theory Spec2Isabelle
  imports Complex_Main
begin

section \<open>The interactive session of \<^verbatim>\<open>localizer/hands_on_demo.py\<close>\<close>

text \<open>
  The class \<^verbatim>\<open>HandsOnDemo\<close> is a record of its attributes, each method a function
  from the session to the session. What a method does to the outside world (drawing,
  files, the trainer, the detector) is appended to the field \<open>trace\<close>, in program order.
  An exception is a value: a method that can raise returns \<open>Inl (error, session at the
  raise)\<close>. Results of the outside world (the key polled, the frame read, whether the
  trainer or the detector raise) come with the \<open>event\<close> of the loop iteration.

  \<^verbatim>\<open>object_size\<close> is a natural number: it is a pixel count of the configuration file,
  used as the radius of \<^verbatim>\<open>cv2.circle\<close>. The scale factor and the sizes computed with it are
  doubles, rounded as the machine rounds them, because the program truncates and rounds
  them to integers; poses, angles and normalized pixels, which it only passes on, are read
  as real numbers. Of an image the model keeps the shape and the pixel values; of the view
  image only the shape, which is all the program reads of it. The file system, the window
  and the camera are taken to work: \<^verbatim>\<open>cv2.imwrite\<close>, \<^verbatim>\<open>open\<close>, \<^verbatim>\<open>cv2.imshow\<close>,
  \<^verbatim>\<open>cv2.putText\<close> and the drawing of a calibration pose do not raise; the drawing of an
  object that the detector returns may.
\<close>

subsection \<open>Data\<close>

datatype mode = DETECT | NEW_MODEL

datatype error =
    AttributeError   \<comment> \<open>an attribute of \<^verbatim>\<open>None\<close> is read\<close>
  | IndexError       \<comment> \<open>a list is indexed out of range\<close>
  | ValueError       \<comment> \<open>numpy: conversion of nan, shapes that do not broadcast\<close>
  | CvError          \<comment> \<open>\<^verbatim>\<open>cv2.error\<close>\<close>
  | TrainerError     \<comment> \<open>any exception of \<^verbatim>\<open>localizer.train\<close>\<close>
  | PredictError     \<comment> \<open>any exception of \<^verbatim>\<open>Localizer.predict\<close>\<close>
  | SystemExit       \<comment> \<open>\<^verbatim>\<open>sys.exit(0)\<close>\<close>

text \<open>
  A Python float that can be infinite or not a number: numpy divides by zero without
  raising.
\<close>

datatype pyfloat = Finite real | Inf | NaN

text \<open>A three-channel image: its first two dimensions and its pixel values, flattened.\<close>

record ndarray =
  height :: nat
  width :: nat
  pixels :: "nat list"

text \<open>The handle of a loaded detector; what is inside is \<^verbatim>\<open>localizer.predict\<close>'s.\<close>

datatype localizer_handle = Localizer

text \<open>
  An object of the list \<^verbatim>\<open>predict\<close> returns: a pose (x, y, angle) that \<^verbatim>\<open>_draw_pose\<close> draws,
  or an object for which reading its pose or drawing it raises.
\<close>

datatype detected = Pose real real real | Undrawable

text \<open>One entry of the dataset file, as the dictionary literal of \<^verbatim>\<open>_new_model\<close>.\<close>

datatype data_object =
  DataObject (category: int) (origin_x: real) (origin_y: real) (origin_angle: real)

datatype data_element =
  DataElement (image_field: string) (objects: "data_object list")

type_synonym color = "nat \<times> nat \<times> nat"

datatype effect =
    PutText string nat color           \<comment> \<open>text, y coordinate, color\<close>
  | DrawPose real real real              \<comment> \<open>x, y, angle\<close>
  | ImShow
  | WaitKey
  | Predict "real list"                  \<comment> \<open>the input given to \<^verbatim>\<open>predict\<close>\<close>
  | ImWrite string "real list"           \<comment> \<open>path, pixel values\<close>
  | WriteDataset string "data_element list"  \<comment> \<open>path, content\<close>
  | ConfigureLogging
  | TrainerRun                           \<comment> \<open>\<^verbatim>\<open>train.Trainer(cfg).run()\<close> is entered\<close>
  | PltClose
  | LoadLocalizer                        \<comment> \<open>\<^verbatim>\<open>predict.Localizer(cfg)\<close> is entered\<close>
  | PrintExc                             \<comment> \<open>\<^verbatim>\<open>traceback.print_exc()\<close>\<close>
  | Print string

record session =
  dataset :: "data_element list option"
  scale_factor :: "pyfloat option"
  view_shape :: "(nat \<times> nat \<times> nat) option"   \<comment> \<open>\<open>None\<close>: the attribute is not set yet\<close>
  mode :: mode
  localizer :: "localizer_handle option"
  object_size :: nat
  camera_image :: "ndarray option"
  image_idx :: nat
  key :: int
  trace :: "effect list"

text \<open>What one iteration of the loop gets from outside.\<close>

record event =
  pressed :: int                     \<comment> \<open>\<^verbatim>\<open>cv2.waitKey(1)\<close>\<close>
  frame :: "nat list option"         \<comment> \<open>the shape of the frame read, \<open>None\<close> for no frame\<close>
  resized :: "nat list"              \<comment> \<open>the pixel values \<^verbatim>\<open>cv2.resize\<close> returns for it\<close>
  trainer_raises :: bool             \<comment> \<open>does \<^verbatim>\<open>train.Trainer(cfg).run()\<close> raise\<close>
  localizer_raises :: bool           \<comment> \<open>does \<^verbatim>\<open>predict.Localizer(cfg)\<close> raise\<close>
  prediction :: "detected list option"
                                     \<comment> \<open>the objects found, \<open>None\<close>: \<^verbatim>\<open>predict\<close> raises\<close>

type_synonym result = "(error \<times> session) + session"

datatype outcome = Next session | Break session | Raise error session

subsection \<open>Constants of the program\<close>

definition model_dir :: string where
  "model_dir = ''.temp/hands_on_demo_model''"

definition dataset_path :: string where
  "dataset_path = model_dir @ ''/dataset.json''"

definition green :: color where
  "green = (0, 255, 0)"

definition red :: color where
  "red = (0, 0, 255)"

definition ord_q :: int where "ord_q = 113"
definition ord_n :: int where "ord_n = 110"
definition ord_r :: int where "ord_r = 114"
definition ord_space :: int where "ord_space = 32"

text \<open>\<^verbatim>\<open>str\<close> of a natural number, for the f-strings.\<close>

fun str_nat :: "nat \<Rightarrow> string" where
  "str_nat n =
     (if n < 10 then [''0123456789'' ! n]
      else str_nat (n div 10) @ [''0123456789'' ! (n mod 10)])"

declare str_nat.simps [simp del]

subsection \<open>Drawing\<close>

definition emit :: "effect \<Rightarrow> session \<Rightarrow> session" where
  "emit x s = s\<lparr>trace := trace s @ [x]\<rparr>"

text \<open>
  \<^verbatim>\<open>_draw_pose\<close> draws with \<^verbatim>\<open>utils.make_transform2\<close> and \<^verbatim>\<open>cv2\<close> on the view image;
  the drawing is recorded, the pixels are not computed. This is the drawing of a pose
  that \<^verbatim>\<open>cv2\<close> can draw, as the positions of \<^verbatim>\<open>_new_model\<close> in the picture are; for the
  objects of a detector see \<open>draw_objects\<close>.
\<close>

definition draw_pose :: "real \<Rightarrow> real \<Rightarrow> real \<Rightarrow> session \<Rightarrow> session" where
  "draw_pose x y angle s = emit (DrawPose x y angle) s"

text \<open>
  \<^verbatim>\<open>_put_text\<close> reads \<^verbatim>\<open>self._camera_image.shape[0]\<close> while the arguments of
  \<^verbatim>\<open>cv2.putText\<close> are evaluated: with no camera image yet this raises.
\<close>

definition put_text :: "string \<Rightarrow> nat \<Rightarrow> color \<Rightarrow> session \<Rightarrow> result" where
  "put_text text y c s =
     (case camera_image s of
        None \<Rightarrow> Inl (AttributeError, s)
      | Some im \<Rightarrow> Inr (emit (PutText text (height im + y) c) s))"

subsection \<open>Input normalization\<close>

definition make_input :: "ndarray \<Rightarrow> real list" where
  "make_input im = map (\<lambda>p. (real p / 255) powr (1 / 2)) (pixels im)"

subsection \<open>Model lifecycle\<close>

definition load_model :: "bool \<Rightarrow> session \<Rightarrow> session" where
  "load_model raises s =
     (let s1 = emit LoadLocalizer s in
      if raises then (emit PrintExc s1)\<lparr>localizer := None\<rparr>
      else s1\<lparr>localizer := Some Localizer, mode := DETECT\<rparr>)"

definition train :: "event \<Rightarrow> session \<Rightarrow> result" where
  "train e s =
     (case put_text ''Training, please wait...'' 20 green s of
        Inl x \<Rightarrow> Inl x
      | Inr s1 \<Rightarrow>
          (let s2 = emit TrainerRun (emit ConfigureLogging (emit WaitKey (emit ImShow s1))) in
           if trainer_raises e then Inl (TrainerError, s2)
           else Inr (emit (Print ''Training done!'')
                      (load_model (localizer_raises e) (emit PltClose s2)))))"

subsection \<open>Detection\<close>

text \<open>
  The loop over the objects in \<^verbatim>\<open>_detect\<close>: it draws them in order and is left by the
  exception of the first that cannot be drawn.
\<close>

fun draw_objects :: "detected list \<Rightarrow> session \<Rightarrow> result" where
  "draw_objects [] s = Inr s"
| "draw_objects (Pose x y a # objs) s = draw_objects objs (draw_pose x y a s)"
| "draw_objects (Undrawable # objs) s = Inl (CvError, s)"

text \<open>The body of the \<^verbatim>\<open>try\<close> of \<^verbatim>\<open>_detect\<close>.\<close>

definition detect_try :: "event \<Rightarrow> session \<Rightarrow> result" where
  "detect_try e s =
     (case localizer s of
        None \<Rightarrow> Inr s
      | Some l \<Rightarrow>
          (case camera_image s of
             None \<Rightarrow> Inl (AttributeError, s)
           | Some im \<Rightarrow>
               (let s1 = emit (Predict (make_input im)) s in
                case prediction e of
                  None \<Rightarrow> Inl (PredictError, s1)
                | Some objs \<Rightarrow>
                    (case draw_objects objs s1 of
                       Inl x \<Rightarrow> Inl x
                     | Inr s2 \<Rightarrow>
                         put_text ''Detecting. Show object to the camera.'' 20 green s2))))"

definition detect :: "event \<Rightarrow> session \<Rightarrow> result" where
  "detect e s =
     (let s1 = (case detect_try e s of
                  Inl (err, s') \<Rightarrow> (emit PrintExc s')\<lparr>localizer := None\<rparr>
                | Inr s' \<Rightarrow> s') in
      if localizer s1 = None then put_text ''No model loaded'' 80 red s1 else Inr s1)"

subsection \<open>Collection\<close>

definition positions :: "ndarray \<Rightarrow> nat \<Rightarrow> (real \<times> real) list" where
  "positions im sz =
     [(real (width im) / 2, real (height im) / 2),
      (real sz, real sz),
      (real (width im) - real sz, real sz),
      (real (width im) - real sz, real (height im) - real sz),
      (real sz, real (height im) - real sz)]"

definition pose_angle :: "ndarray \<Rightarrow> nat \<Rightarrow> nat \<Rightarrow> real" where
  "pose_angle im sz i = 2 * pi / real (length (positions im sz)) * real i"

text \<open>
  The name of the image file of a cursor. \<^verbatim>\<open>strftime\<close> is given the f-string, which has
  no directive in it, and returns it as it is.
\<close>

definition image_file :: "nat \<Rightarrow> string" where
  "image_file i = ''image-'' @ str_nat i @ ''.png''"

definition image_path :: "nat \<Rightarrow> string" where
  "image_path i = model_dir @ ''/'' @ image_file i"

definition new_model :: "event \<Rightarrow> session \<Rightarrow> result" where
  "new_model e s =
     (case camera_image s of
        None \<Rightarrow> Inl (AttributeError, s)
      | Some im \<Rightarrow>
          (let ps = positions im (object_size s);
               angle = pose_angle im (object_size s) (image_idx s) in
           if length ps \<le> image_idx s then Inl (IndexError, s)
           else
             (let x = fst (ps ! image_idx s);
                  y = snd (ps ! image_idx s);
                  s1 = draw_pose x y angle s in
              if key s1 = ord_space then
                (let s2 = emit (ImWrite (image_path (image_idx s1))
                                  (map (\<lambda>v. v * 255) (make_input im))) s1 in
                 case dataset s2 of
                   None \<Rightarrow> Inl (AttributeError, s2)
                 | Some ds \<Rightarrow>
                     (let ds' = ds @ [DataElement (image_file (image_idx s2))
                                        [DataObject 0 x y angle]];
                          s3 = s2\<lparr>dataset := Some ds', image_idx := image_idx s2 + 1\<rparr> in
                      if image_idx s3 = length ps
                      then train e (emit (WriteDataset dataset_path ds') s3)
                      else Inr s3))
              else
                (case put_text (''Image #'' @ str_nat (image_idx s1 + 1) @ '' of ''
                                 @ str_nat (length ps)) 20 green s1 of
                   Inl err \<Rightarrow> Inl err
                 | Inr s2 \<Rightarrow>
                     (case put_text ''Place object to shown position and orientation''
                             50 green s2 of
                        Inl err \<Rightarrow> Inl err
                      | Inr s3 \<Rightarrow> put_text ''and press space'' 80 green s3)))))"

subsection \<open>The frame pipeline\<close>

text \<open>
  The arithmetic of doubles. \<open>fl x\<close> is the double nearest to \<open>x\<close>, a tie going to the even
  mantissa of 53 bits; every operation on doubles returns \<open>fl\<close> of the exact result. The
  exponent range is not modelled, and an integer is taken to be a double as it is, which
  it is below \<open>2 ^ 53\<close>: the integers here are an object size and the sides of a frame.
\<close>

definition round_half_even :: "real \<Rightarrow> int" where
  "round_half_even x =
     (let f = \<lfloor>x\<rfloor> in
      if x - of_int f < 1 / 2 then f
      else if 1 / 2 < x - of_int f then f + 1
      else if even f then f else f + 1)"

definition fl :: "real \<Rightarrow> real" where
  "fl x =
     (if x = 0 then 0
      else (let e = \<lfloor>log 2 \<bar>x\<bar>\<rfloor> in
            of_int (round_half_even (x * 2 powi (52 - e))) * 2 powi (e - 52)))"

text \<open>
  Lines 71 to 76 of \<^verbatim>\<open>run\<close>. Python's \<^verbatim>\<open>int\<close> of a non-negative float is its floor.
  A frame with no pixels makes numpy divide by zero: the scale factor stored is infinite,
  or not a number when the object size is zero too, and \<^verbatim>\<open>int\<close> of the nan that its
  product with the height 0 is raises.
\<close>

definition set_scale :: "nat list \<Rightarrow> session \<Rightarrow> result" where
  "set_scale shp s =
     (if scale_factor s = None then
        (let actual_length = max (shp ! 0) (shp ! 1);
             desired_length = object_size s * 6 in
         if actual_length = 0
         then Inl (ValueError, s\<lparr>scale_factor := Some (if desired_length = 0 then NaN else Inf)\<rparr>)
         else
           (let sf = fl (real desired_length / real actual_length) in
            Inr (s\<lparr>scale_factor := Some (Finite sf),
                   view_shape := Some (nat \<lfloor>fl (fl (sf * real (shp ! 0)) + 100)\<rfloor>,
                                       min (nat \<lfloor>fl (sf * real (shp ! 1))\<rfloor> + 1) 640, 3)\<rparr>)))
      else Inr s)"

text \<open>
  \<^verbatim>\<open>cv2.resize(frame, (0, 0), fx, fy)\<close> returns an image of
  \<open>round (fy * rows)\<close> by \<open>round (fx * cols)\<close> pixels, the products being doubles and a
  half rounded to the even neighbour, and fails when the scale is not positive or a side
  becomes zero.
\<close>

definition cv_round :: "real \<Rightarrow> nat" where
  "cv_round x = nat (round_half_even x)"

definition resize :: "nat list \<Rightarrow> nat list \<Rightarrow> real \<Rightarrow> error + ndarray" where
  "resize shp px sf =
     (if sf \<le> 0 \<or> cv_round (fl (sf * real (shp ! 0))) = 0
         \<or> cv_round (fl (sf * real (shp ! 1))) = 0
      then Inl CvError
      else Inr \<lparr>height = cv_round (fl (sf * real (shp ! 0))),
                width = cv_round (fl (sf * real (shp ! 1))),
                pixels = px\<rparr>)"

text \<open>
  Line 80: the camera image is assigned to the slice of the zeroed view image of its own
  size. numpy cuts the slice at the view's border and then wants the two shapes to
  broadcast: each side of the camera image is the slice's, or 1.
\<close>

definition fits :: "ndarray \<Rightarrow> nat \<times> nat \<times> nat \<Rightarrow> bool" where
  "fits im vs =
     (case vs of (vh, vw, vc) \<Rightarrow>
        (height im \<le> vh \<or> height im = 1) \<and> (width im \<le> vw \<or> width im = 1) \<and> vc = 3)"

text \<open>
  Lines 71 to 80: scale, resize, compose the view image. After \<open>set_scale\<close> the scale
  factor is set, and finite; the other branches are there for the type: \<^verbatim>\<open>cv2.resize\<close>
  takes no scale that is not a positive number.
\<close>

definition acquire :: "nat list \<Rightarrow> nat list \<Rightarrow> session \<Rightarrow> result" where
  "acquire shp px s =
     (case set_scale shp s of
        Inl x \<Rightarrow> Inl x
      | Inr s1 \<Rightarrow>
          (case scale_factor s1 of
             Some (Finite sf) \<Rightarrow>
               (case resize shp px sf of
                  Inl err \<Rightarrow> Inl (err, s1)
                | Inr im \<Rightarrow>
                    (let s2 = s1\<lparr>camera_image := Some im\<rparr> in
                     case view_shape s2 of
                       None \<Rightarrow> Inl (AttributeError, s2)
                     | Some vs \<Rightarrow> if fits im vs then Inr s2 else Inl (ValueError, s2)))
           | other \<Rightarrow> Inl (CvError, s1)))"

subsection \<open>The loop\<close>

text \<open>Lines 50 to 58: the key polled and the session commands.\<close>

definition dispatch_key :: "event \<Rightarrow> session \<Rightarrow> result" where
  "dispatch_key e s =
     (if key s = ord_n then Inr (s\<lparr>mode := NEW_MODEL, image_idx := 0, dataset := Some []\<rparr>)
      else if key s = ord_r then train e s
      else Inr s)"

text \<open>Lines 82 to 88: the overlay of the mode, then the window.\<close>

definition render :: "event \<Rightarrow> session \<Rightarrow> result" where
  "render e s =
     (case (if mode s = DETECT
            then (case put_text ''Press n to train new model, q to quit'' 50 green s of
                    Inl x \<Rightarrow> Inl x
                  | Inr s1 \<Rightarrow> detect e s1)
            else new_model e s) of
        Inl x \<Rightarrow> Inl x
      | Inr s2 \<Rightarrow> Inr (emit ImShow s2))"

definition valid_frame :: "nat list \<Rightarrow> bool" where
  "valid_frame shp \<longleftrightarrow> \<not> (length shp \<noteq> 3 \<or> shp ! 2 \<noteq> 3)"

text \<open>Lines 60 to 88: the frame of the iteration, from the camera to the window.\<close>

definition process_frame :: "event \<Rightarrow> session \<Rightarrow> outcome" where
  "process_frame e s =
     (case frame e of
        None \<Rightarrow> Next (emit (Print ''Cannot read camera frame'') s)
      | Some shp \<Rightarrow>
          if \<not> valid_frame shp
          then Raise SystemExit (emit (Print ''Must be a color image'') s)
          else
            (case acquire shp (resized e) s of
               Inl (err, s') \<Rightarrow> Raise err s'
             | Inr s1 \<Rightarrow>
                 (case render e s1 of
                    Inl (err, s') \<Rightarrow> Raise err s'
                  | Inr s2 \<Rightarrow> Next s2)))"

text \<open>One pass through the body of \<^verbatim>\<open>while True\<close>.\<close>

definition iteration :: "session \<Rightarrow> event \<Rightarrow> outcome" where
  "iteration s e =
     (let s0 = s\<lparr>key := pressed e\<rparr> in
      if key s0 = ord_q then Break s0
      else
        (case dispatch_key e s0 of
           Inl (err, s') \<Rightarrow> Raise err s'
         | Inr s1 \<Rightarrow> process_frame e s1))"

text \<open>
  The loop over the events of a session, as far as they go: \<open>Next\<close> when the loop is
  still running after the last of them.
\<close>

fun run :: "session \<Rightarrow> event list \<Rightarrow> outcome" where
  "run s [] = Next s"
| "run s (e # es) =
     (case iteration s e of
        Next s' \<Rightarrow> run s' es
      | Break s' \<Rightarrow> Break s'
      | Raise err s' \<Rightarrow> Raise err s')"

text \<open>
  \<^verbatim>\<open>__init__\<close>, from the object size of the configuration and the outcome of the first
  load.
\<close>

definition init :: "nat \<Rightarrow> bool \<Rightarrow> session" where
  "init sz raises =
     load_model raises
       \<lparr>dataset = None, scale_factor = None, view_shape = None, mode = DETECT,
        localizer = None, object_size = sz, camera_image = None, image_idx = 0,
        key = - 1, trace = []\<rparr>"

subsection \<open>Reading outcomes and traces\<close>

text \<open>The session an outcome ends in, and the session a method ends in or raises in.\<close>

fun session_of :: "outcome \<Rightarrow> session" where
  "session_of (Next s) = s"
| "session_of (Break s) = s"
| "session_of (Raise err s) = s"

fun ended_in :: "result \<Rightarrow> session" where
  "ended_in (Inl (err, s)) = s"
| "ended_in (Inr s) = s"

text \<open>The image files and the dataset files a trace writes, in order.\<close>

fun written_images :: "effect list \<Rightarrow> string list" where
  "written_images [] = []"
| "written_images (ImWrite p px # xs) = p # written_images xs"
| "written_images (x # xs) = written_images xs"

fun written_datasets :: "effect list \<Rightarrow> data_element list list" where
  "written_datasets [] = []"
| "written_datasets (WriteDataset p ds # xs) = ds # written_datasets xs"
| "written_datasets (x # xs) = written_datasets xs"

text \<open>An event with the key \<open>k\<close> and a frame of shape \<open>f\<close>, in which nothing outside fails.\<close>

definition poll :: "int \<Rightarrow> nat list option \<Rightarrow> event" where
  "poll k f = \<lparr>pressed = k, frame = f, resized = [], trainer_raises = False,
               localizer_raises = False, prediction = Some []\<rparr>"

text \<open>The captions a trace puts on the view, in order.\<close>

fun captions :: "effect list \<Rightarrow> string list" where
  "captions [] = []"
| "captions (PutText t y c # xs) = t # captions xs"
| "captions (x # xs) = captions xs"

text \<open>The poses a trace draws, in order.\<close>

fun drawn_poses :: "effect list \<Rightarrow> (real \<times> real \<times> real) list" where
  "drawn_poses [] = []"
| "drawn_poses (DrawPose x y a # xs) = (x, y, a) # drawn_poses xs"
| "drawn_poses (x # xs) = drawn_poses xs"

text \<open>The camera image that a frame of 480 by 640 pixels gives with the scale 9/16.\<close>

definition sample_image :: ndarray where
  "sample_image = \<lparr>height = 270, width = 360, pixels = []\<rparr>"

text \<open>
  A collection session on frames of 480 by 640 pixels: the new-session key, then five
  confirmations; \<open>lr\<close> says whether the detector fails to load after the training.
\<close>

definition collect_events :: "bool \<Rightarrow> event list" where
  "collect_events lr =
     [poll ord_n (Some [480, 640, 3]),
      poll ord_space (Some [480, 640, 3]),
      poll ord_space (Some [480, 640, 3]),
      poll ord_space (Some [480, 640, 3]),
      poll ord_space (Some [480, 640, 3]),
      (poll ord_space (Some [480, 640, 3]))\<lparr>localizer_raises := lr\<rparr>]"

text \<open>
  The session that run of the loop ends in, from a start with an object size of 60 and a
  detector that loads.
\<close>

definition collected :: "bool \<Rightarrow> session" where
  "collected lr =
     \<lparr>dataset = Some [DataElement ''image-0.png'' [DataObject 0 180 135 0],
                      DataElement ''image-1.png'' [DataObject 0 60 60 (2 * pi / 5)],
                      DataElement ''image-2.png'' [DataObject 0 300 60 (4 * pi / 5)],
                      DataElement ''image-3.png'' [DataObject 0 300 210 (6 * pi / 5)],
                      DataElement ''image-4.png'' [DataObject 0 60 210 (8 * pi / 5)]],
      scale_factor = Some (Finite (9 / 16)), view_shape = Some (370, 361, 3),
      mode = (if lr then NEW_MODEL else DETECT),
      localizer = (if lr then None else Some Localizer),
      object_size = 60, camera_image = Some sample_image, image_idx = 5, key = ord_space,
      trace =
        [LoadLocalizer, DrawPose 180 135 0,
         PutText ''Image #1 of 5'' 290 green,
         PutText ''Place object to shown position and orientation'' 320 green,
         PutText ''and press space'' 350 green, ImShow,
         DrawPose 180 135 0, ImWrite ''.temp/hands_on_demo_model/image-0.png'' [], ImShow,
         DrawPose 60 60 (2 * pi / 5), ImWrite ''.temp/hands_on_demo_model/image-1.png'' [], ImShow,
         DrawPose 300 60 (4 * pi / 5), ImWrite ''.temp/hands_on_demo_model/image-2.png'' [], ImShow,
         DrawPose 300 210 (6 * pi / 5), ImWrite ''.temp/hands_on_demo_model/image-3.png'' [], ImShow,
         DrawPose 60 210 (8 * pi / 5), ImWrite ''.temp/hands_on_demo_model/image-4.png'' [],
         WriteDataset ''.temp/hands_on_demo_model/dataset.json''
           [DataElement ''image-0.png'' [DataObject 0 180 135 0],
            DataElement ''image-1.png'' [DataObject 0 60 60 (2 * pi / 5)],
            DataElement ''image-2.png'' [DataObject 0 300 60 (4 * pi / 5)],
            DataElement ''image-3.png'' [DataObject 0 300 210 (6 * pi / 5)],
            DataElement ''image-4.png'' [DataObject 0 60 210 (8 * pi / 5)]],
         PutText ''Training, please wait...'' 290 green, ImShow, WaitKey, ConfigureLogging,
         TrainerRun, PltClose, LoadLocalizer]
        @ (if lr then [PrintExc] else [])
        @ [Print ''Training done!'', ImShow]\<rparr>"

text \<open>
  A session as a first frame of 480 by 640 pixels leaves it with an object size of 60 and
  a detector loaded, its trace emptied.
\<close>

definition sample_session :: session where
  "sample_session =
     \<lparr>dataset = None, scale_factor = Some (Finite (9 / 16)),
      view_shape = Some (370, 361, 3), mode = DETECT, localizer = Some Localizer, object_size = 60,
      camera_image = Some sample_image, image_idx = 0, key = - 1, trace = []\<rparr>"

subsection \<open>Invariants and frame conditions\<close>

text \<open>No frame has been processed and the trainer has not run.\<close>

definition idle :: "session \<Rightarrow> bool" where
  "idle s \<longleftrightarrow> camera_image s = None \<and> TrainerRun \<notin> set (trace s)"

text \<open>The scale, the shape of the view and the object size are those of \<open>s\<close>.\<close>

definition same_scale :: "session \<Rightarrow> session \<Rightarrow> bool" where
  "same_scale s s' \<longleftrightarrow>
     scale_factor s' = scale_factor s \<and> view_shape s' = view_shape s
     \<and> object_size s' = object_size s"

text \<open>
  Where each of the four corner positions lies from its corner of the camera image: the
  position minus the corner, along x and along y; the corners in the order of the list of
  \<^verbatim>\<open>_new_model\<close>, from the origin at the top left round to the bottom left.
\<close>

definition corner_offsets :: "ndarray \<Rightarrow> nat \<Rightarrow> (real \<times> real) list" where
  "corner_offsets im sz =
     map2 (\<lambda>p c. (fst p - fst c, snd p - snd c))
       (tl (positions im sz))
       [(0, 0), (real (width im), 0), (real (width im), real (height im)),
        (0, real (height im))]"

text \<open>
  A step that writes no file and leaves the cursor alone; if the session is in
  collection after it, it was before, with the same dataset.
\<close>

definition quiet_step :: "session \<Rightarrow> session \<Rightarrow> bool" where
  "quiet_step s s' \<longleftrightarrow>
     image_idx s' = image_idx s
     \<and> (mode s' = NEW_MODEL \<longrightarrow> mode s = NEW_MODEL \<and> dataset s' = dataset s)
     \<and> (\<exists>xs. trace s' = trace s @ xs \<and> written_images xs = [] \<and> written_datasets xs = [])"

text \<open>
  The state of a collection session whose trace began at position \<open>k\<close>, while the cursor
  is below 5: the dataset holds one entry per image written, none of it is on disk.
\<close>

definition collecting :: "nat \<Rightarrow> session \<Rightarrow> bool" where
  "collecting k s \<longleftrightarrow>
     k \<le> length (trace s) \<and> image_idx s < 5
     \<and> (mode s = NEW_MODEL \<longrightarrow>
          (\<exists>ds. dataset s = Some ds \<and> map image_field ds = map image_file [0..<image_idx s]))
     \<and> written_images (drop k (trace s)) = map image_path [0..<image_idx s]
     \<and> written_datasets (drop k (trace s)) = []"

text \<open>
  And once the cursor is 5: five images were written, then the dataset, then the training
  began; nothing was written since.
\<close>

definition completed :: "nat \<Rightarrow> session \<Rightarrow> bool" where
  "completed k s \<longleftrightarrow>
     k \<le> length (trace s) \<and> image_idx s = 5
     \<and> (\<exists>ds A B y.
          drop k (trace s) =
            A @ [WriteDataset dataset_path ds, PutText ''Training, please wait...'' y green,
                 ImShow, WaitKey, ConfigureLogging, TrainerRun] @ B
          \<and> map image_field ds = map image_file [0..<5]
          \<and> written_images A = map image_path [0..<5] \<and> written_datasets A = []
          \<and> written_images B = [] \<and> written_datasets B = [])"

section \<open>Properties\<close>

subsection \<open>Doubles\<close>

text \<open>With the exponent of \<open>x\<close> at hand, \<open>fl x\<close> is a rounding of a mantissa.\<close>

lemma fl_at:
  assumes "2 powi e \<le> \<bar>x\<bar>" and "\<bar>x\<bar> < 2 powi (e + 1)"
  shows "fl x = of_int (round_half_even (x * 2 powi (52 - e))) * 2 powi (e - 52)"
proof -
  have "(0::real) < 2 powi e" by simp
  with assms(1) have pos: "0 < \<bar>x\<bar>" by linarith
  have p1: "(2::real) powr real_of_int e = 2 powi e"
    by (rule powr_real_of_int') simp_all
  have "(2::real) powr real_of_int (e + 1) = 2 powi (e + 1)"
    by (rule powr_real_of_int') simp_all
  then have p2: "(2::real) powr (real_of_int e + 1) = 2 powi (e + 1)"
    by (simp only: of_int_add of_int_1)
  from assms p1 p2 have "(2::real) powr real_of_int e \<le> \<bar>x\<bar>
      \<and> \<bar>x\<bar> < 2 powr (real_of_int e + 1)"
    by simp
  with floor_log_eq_powr_iff [of "\<bar>x\<bar>" 2 e] pos have "\<lfloor>log 2 \<bar>x\<bar>\<rfloor> = e"
    by simp
  with pos show ?thesis by (simp add: fl_def Let_def)
qed

text \<open>The doubles of the sessions on frames of 480 by 640 and 240 by 320 pixels: all exact.\<close>

lemma fl_values:
  "fl (9 / 16) = 9 / 16" "fl 270 = 270" "fl 370 = 370" "fl 360 = 360"
  "fl 135 = 135" "fl 180 = 180"
proof -
  show "fl (9 / 16) = 9 / 16"
    by (subst fl_at [of "- 1"]) (simp_all add: round_half_even_def power_int_minus)
  show "fl 270 = 270"
    by (subst fl_at [of 8]) (simp_all add: round_half_even_def power_int_minus)
  show "fl 370 = 370"
    by (subst fl_at [of 8]) (simp_all add: round_half_even_def power_int_minus)
  show "fl 360 = 360"
    by (subst fl_at [of 8]) (simp_all add: round_half_even_def power_int_minus)
  show "fl 135 = 135"
    by (subst fl_at [of 7]) (simp_all add: round_half_even_def power_int_minus)
  show "fl 180 = 180"
    by (subst fl_at [of 7]) (simp_all add: round_half_even_def power_int_minus)
qed

text \<open>
  A scale factor that is no dyadic number: an object size of 76 on a frame of 600 by 800
  pixels. The quotient 0.57 is rounded down, its products with 600 and 800 round to just
  below 342 and 456, and the view is one pixel smaller each way than exact arithmetic
  would have it.
\<close>

lemma fl_076:
  "fl (57 / 100) = 5134103575202365 / 9007199254740992"
  "fl (5134103575202365 / 9007199254740992 * 600) = 6016527627190271 / 17592186044416"
  "fl (6016527627190271 / 17592186044416 + 100) = 7775746231631871 / 17592186044416"
  "fl (5134103575202365 / 9007199254740992 * 800) = 8022036836253695 / 17592186044416"
proof -
  show "fl (57 / 100) = 5134103575202365 / 9007199254740992"
    by (subst fl_at [of "- 1"]) (simp_all add: round_half_even_def power_int_minus)
  show "fl (5134103575202365 / 9007199254740992 * 600) = 6016527627190271 / 17592186044416"
    by (subst fl_at [of 8]) (simp_all add: round_half_even_def power_int_minus)
  show "fl (6016527627190271 / 17592186044416 + 100) = 7775746231631871 / 17592186044416"
    by (subst fl_at [of 8]) (simp_all add: round_half_even_def power_int_minus)
  show "fl (5134103575202365 / 9007199254740992 * 800) = 8022036836253695 / 17592186044416"
    by (subst fl_at [of 8]) (simp_all add: round_half_even_def power_int_minus)
qed

lemma fl_076_reduced:
  "fl (385057768140177375 / 1125899906842624) = 6016527627190271 / 17592186044416"
  "fl (7775746231631871 / 17592186044416) = 7775746231631871 / 17592186044416"
  "fl (128352589380059125 / 281474976710656) = 8022036836253695 / 17592186044416"
  using fl_076 by simp_all

lemma set_scale_076:
  assumes "scale_factor s = None" and "object_size s = 76"
  shows "set_scale [600, 800, 3] s =
     Inr (s\<lparr>scale_factor := Some (Finite (5134103575202365 / 9007199254740992)),
            view_shape := Some (441, 456, 3)\<rparr>)"
  using assms by (simp add: set_scale_def Let_def fl_076 fl_076_reduced)

text \<open>
  And a tie that exact arithmetic would see where the doubles do not: an object size of 68
  on a frame of 720 by 1280 pixels. The quotient 0.31875 is rounded down, its product with
  720 is just below 229.5 and the camera image has 229 rows, not 230.
\<close>

lemma fl_068:
  "fl (51 / 160) = 2871044762448691 / 9007199254740992"
  "fl (2871044762448691 / 9007199254740992 * 720) = 8074813394386943 / 35184372088832"
  "fl (2871044762448691 / 9007199254740992 * 1280) = 408"
  "fl (8074813394386943 / 35184372088832 + 100) = 659 / 2"
proof -
  show "fl (51 / 160) = 2871044762448691 / 9007199254740992"
    by (subst fl_at [of "- 2"]) (simp_all add: round_half_even_def power_int_minus)
  show "fl (2871044762448691 / 9007199254740992 * 720) = 8074813394386943 / 35184372088832"
    by (subst fl_at [of 7]) (simp_all add: round_half_even_def power_int_minus)
  show "fl (2871044762448691 / 9007199254740992 * 1280) = 408"
    by (subst fl_at [of 8]) (simp_all add: round_half_even_def power_int_minus)
  show "fl (8074813394386943 / 35184372088832 + 100) = 659 / 2"
    by (subst fl_at [of 8]) (simp_all add: round_half_even_def power_int_minus)
qed

lemma fl_068_reduced:
  "fl (129197014310191095 / 562949953421312) = 8074813394386943 / 35184372088832"
  "fl (14355223812243455 / 35184372088832) = 408"
  "fl (11593250603270143 / 35184372088832) = 659 / 2"
  using fl_068 by simp_all

lemma acquire_068:
  assumes "scale_factor s = None" and "object_size s = 68"
  shows "acquire [720, 1280, 3] px s =
     Inr (s\<lparr>scale_factor := Some (Finite (2871044762448691 / 9007199254740992)),
            view_shape := Some (329, 409, 3),
            camera_image := Some \<lparr>height = 229, width = 408, pixels = px\<rparr>\<rparr>)"
  using assms
  by (simp add: acquire_def set_scale_def resize_def cv_round_def round_half_even_def
      fits_def Let_def fl_068 fl_068_reduced)

subsection \<open>What the methods do, step by step\<close>

lemma written_images_append:
  "written_images (xs @ ys) = written_images xs @ written_images ys"
  by (induction xs rule: written_images.induct) auto

lemma written_datasets_append:
  "written_datasets (xs @ ys) = written_datasets xs @ written_datasets ys"
  by (induction xs rule: written_datasets.induct) auto

lemma draw_objects_trace:
  "\<exists>xs. ended_in (draw_objects objs s) = s\<lparr>trace := trace s @ xs\<rparr>
        \<and> written_images xs = [] \<and> written_datasets xs = []"
proof (induction objs s rule: draw_objects.induct)
  case (1 s)
  have "s = s\<lparr>trace := trace s @ []\<rparr>" by simp
  then show ?case by (intro exI [of _ "[]"]) simp
next
  case (2 x y a objs s)
  then obtain xs where
    xs: "ended_in (draw_objects objs (draw_pose x y a s))
           = (draw_pose x y a s)\<lparr>trace := trace (draw_pose x y a s) @ xs\<rparr>"
      "written_images xs = []" "written_datasets xs = []"
    by blast
  then show ?case
    by (intro exI [of _ "DrawPose x y a # xs"]) (simp add: draw_pose_def emit_def)
next
  case (3 objs s)
  have "s = s\<lparr>trace := trace s @ []\<rparr>" by simp
  then show ?case by (intro exI [of _ "[]"]) simp
qed

lemma put_text_None: "camera_image s = None \<Longrightarrow> put_text t y c s = Inl (AttributeError, s)"
  by (simp add: put_text_def)

lemma train_None: "camera_image s = None \<Longrightarrow> train e s = Inl (AttributeError, s)"
  by (simp add: train_def put_text_None)

lemma train_Some:
  assumes "camera_image s = Some im"
  shows "train e s =
     (if trainer_raises e
      then Inl (TrainerError,
                s\<lparr>trace := trace s @ [PutText ''Training, please wait...'' (height im + 20) green,
                                      ImShow, WaitKey, ConfigureLogging, TrainerRun]\<rparr>)
      else Inr (load_model (localizer_raises e)
                  (s\<lparr>trace := trace s @ [PutText ''Training, please wait...'' (height im + 20) green,
                                         ImShow, WaitKey, ConfigureLogging, TrainerRun, PltClose]\<rparr>)
                \<lparr>trace := trace s @ [PutText ''Training, please wait...'' (height im + 20) green,
                                     ImShow, WaitKey, ConfigureLogging, TrainerRun, PltClose,
                                     LoadLocalizer]
                            @ (if localizer_raises e then [PrintExc] else [])
                            @ [Print ''Training done!'']\<rparr>))"
  using assms
  by (simp add: train_def put_text_def emit_def load_model_def Let_def)

lemma run_snoc:
  "run s (es @ [e]) =
     (case run s es of
        Next s' \<Rightarrow> iteration s' e
      | Break s' \<Rightarrow> Break s'
      | Raise err s' \<Rightarrow> Raise err s')"
  by (induction es arbitrary: s) (auto split: outcome.splits)

lemma collect_events_run: "run (init 60 False) (collect_events lr) = Next (collected lr)"
  by (simp add: init_def load_model_def emit_def Let_def poll_def
      iteration_def dispatch_key_def process_frame_def valid_frame_def
      acquire_def set_scale_def resize_def cv_round_def round_half_even_def fl_values
      fits_def render_def put_text_def
      detect_def detect_try_def make_input_def ord_q_def ord_n_def ord_r_def ord_space_def
      new_model_def positions_def pose_angle_def draw_pose_def train_def collect_events_def
      image_path_def image_file_def model_dir_def dataset_path_def str_nat.simps
      collected_def sample_image_def)

subsection \<open>Retraining before the first frame\<close>

lemma idle_init: "idle (init sz lr)"
  by (simp add: idle_def init_def load_model_def emit_def Let_def)

lemma idle_iteration:
  assumes "idle s" and "frame e = None" and "pressed e \<noteq> ord_q" and "pressed e \<noteq> ord_r"
  shows "\<exists>s'. iteration s e = Next s' \<and> idle s'"
  using assms
  by (simp add: iteration_def dispatch_key_def process_frame_def emit_def idle_def Let_def)

lemma idle_run:
  assumes "idle s"
    and "\<forall>x\<in>set es. frame x = None \<and> pressed x \<noteq> ord_q \<and> pressed x \<noteq> ord_r"
  shows "\<exists>s'. run s es = Next s' \<and> idle s'"
  using assms
proof (induction es arbitrary: s)
  case Nil
  then show ?case by simp
next
  case (Cons e es)
  then obtain s1 where s1: "iteration s e = Next s1" "idle s1"
    using idle_iteration [of s e] by auto
  with Cons.IH [of s1] Cons.prems show ?case by simp
qed

text \<open>
  C10. As long as the camera has delivered no frame, the camera image is \<^verbatim>\<open>None\<close>. The
  retrain key pressed then makes \<^verbatim>\<open>_train\<close> draw its caption, \<^verbatim>\<open>_put_text\<close> reads the
  shape of \<^verbatim>\<open>None\<close>, and the loop ends with an AttributeError: the session at the raise
  is the one before the key, the trainer has not run.
\<close>

theorem retrain_before_first_frame:
  assumes "\<forall>x\<in>set es. frame x = None \<and> pressed x \<noteq> ord_q \<and> pressed x \<noteq> ord_r"
    and "pressed e = ord_r"
  shows "\<exists>s. run (init sz lr) es = Next s \<and> camera_image s = None
           \<and> TrainerRun \<notin> set (trace s)
           \<and> run (init sz lr) (es @ [e]) = Raise AttributeError (s\<lparr>key := ord_r\<rparr>)"
proof -
  from idle_run [OF idle_init assms(1)] obtain s where
    s: "run (init sz lr) es = Next s" "idle s" by blast
  from s(2) assms(2) have "iteration s e = Raise AttributeError (s\<lparr>key := ord_r\<rparr>)"
    by (simp add: iteration_def dispatch_key_def train_None ord_r_def ord_q_def ord_n_def idle_def)
  with s show ?thesis by (auto simp: run_snoc idle_def)
qed

theorem retrain_before_first_frame_witness:
  "run (init 60 False) [poll (- 1) None, poll ord_r (Some [480, 640, 3])]
     = Raise AttributeError
        \<lparr>dataset = None, scale_factor = None, view_shape = None, mode = DETECT,
         localizer = Some Localizer, object_size = 60, camera_image = None, image_idx = 0,
         key = ord_r, trace = [LoadLocalizer, Print ''Cannot read camera frame'']\<rparr>"
  using retrain_before_first_frame
          [of "[poll (- 1) None]" "poll ord_r (Some [480, 640, 3])" 60 False]
  by (simp add: poll_def ord_q_def ord_r_def ord_n_def init_def load_model_def emit_def Let_def
      iteration_def dispatch_key_def process_frame_def)

subsection \<open>Training and the reload\<close>

text \<open>
  C3, as the claim states it, fails: when the trainer raises, \<^verbatim>\<open>_train\<close> is left by the
  exception and \<^verbatim>\<open>_load_model\<close> is not called. Here the trainer was entered and no load
  follows.
\<close>

theorem train_reload_counterexample:
  "train ((poll ord_r None)\<lparr>trainer_raises := True\<rparr>) sample_session
     = Inl (TrainerError,
            sample_session\<lparr>trace := [PutText ''Training, please wait...'' 290 green, ImShow,
                                     WaitKey, ConfigureLogging, TrainerRun]\<rparr>)
   \<and> LoadLocalizer \<notin> set (trace (ended_in
         (train ((poll ord_r None)\<lparr>trainer_raises := True\<rparr>) sample_session)))"
  by (simp add: train_def put_text_def emit_def poll_def sample_session_def sample_image_def)

text \<open>
  C3, amended. With a camera image to draw the caption on, \<^verbatim>\<open>_train\<close> enters the trainer;
  when the trainer returns, the load is attempted once, right after, whether it then
  succeeds or not; when the trainer raises, the exception leaves \<^verbatim>\<open>_train\<close> and no load
  is attempted.
\<close>

theorem train_reload_after_return:
  assumes "camera_image s = Some im"
  shows "(\<not> trainer_raises e \<longrightarrow>
            (\<exists>s'. train e s = Inr s' \<and>
               trace s' = trace s @ [PutText ''Training, please wait...'' (height im + 20) green,
                                     ImShow, WaitKey, ConfigureLogging, TrainerRun, PltClose,
                                     LoadLocalizer]
                            @ (if localizer_raises e then [PrintExc] else [])
                            @ [Print ''Training done!'']))
       \<and> (trainer_raises e \<longrightarrow>
            (\<exists>s'. train e s = Inl (TrainerError, s') \<and>
               trace s' = trace s @ [PutText ''Training, please wait...'' (height im + 20) green,
                                     ImShow, WaitKey, ConfigureLogging, TrainerRun]))"
  using train_Some [OF assms, of e] by simp

theorem train_reload_after_return_witness:
  "(\<exists>s'. train (poll ord_r None) sample_session = Inr s' \<and>
      trace s' = [PutText ''Training, please wait...'' 290 green, ImShow, WaitKey,
                  ConfigureLogging, TrainerRun, PltClose, LoadLocalizer,
                  Print ''Training done!''])
   \<and> (\<exists>s'. train ((poll ord_r None)\<lparr>localizer_raises := True\<rparr>) sample_session = Inr s' \<and>
      trace s' = [PutText ''Training, please wait...'' 290 green, ImShow, WaitKey,
                  ConfigureLogging, TrainerRun, PltClose, LoadLocalizer, PrintExc,
                  Print ''Training done!''])"
  using train_reload_after_return [of sample_session sample_image "poll ord_r None"]
    train_reload_after_return
      [of sample_session sample_image "(poll ord_r None)\<lparr>localizer_raises := True\<rparr>"]
  by (simp add: poll_def sample_session_def sample_image_def)

subsection \<open>The calibration positions\<close>

text \<open>
  C4, as the claim states it, fails: with an object size of 60 the corner positions are
  60 pixels inside the corners of the camera image along both axes, not 30; and the
  first position is the centre of the camera image, 270 by 360, not of the view, 370 by
  361.
\<close>

theorem corner_inset_counterexample:
  "positions sample_image 60 = [(180, 135), (60, 60), (300, 60), (300, 210), (60, 210)]
   \<and> corner_offsets sample_image 60 = [(60, 60), (- 60, 60), (- 60, - 60), (60, - 60)]
   \<and> corner_offsets sample_image 60
       \<noteq> [(60 / 2, 60 / 2), (- (60 / 2), 60 / 2), (- (60 / 2), - (60 / 2)), (60 / 2, - (60 / 2))]
   \<and> camera_image sample_session = Some sample_image
   \<and> view_shape sample_session = Some (370, 361, 3)
   \<and> hd (positions sample_image 60) \<noteq> (361 / 2, 370 / 2)"
  by (simp add: positions_def corner_offsets_def sample_image_def sample_session_def)

text \<open>
  C4, amended. The five positions are the centre of the scaled camera image and four
  positions that lie one whole object size \<open>z\<close> inside its corners along both axes: from
  the top left corner by \<open>(z, z)\<close>, from the top right by \<open>(- z, z)\<close>, from the bottom right
  by \<open>(- z, - z)\<close>, from the bottom left by \<open>(z, - z)\<close>.
\<close>

theorem positions_centre_and_corners:
  "length (positions im sz) = 5
   \<and> hd (positions im sz) = (real (width im) / 2, real (height im) / 2)
   \<and> tl (positions im sz)
       = [(real sz, real sz), (real (width im) - real sz, real sz),
          (real (width im) - real sz, real (height im) - real sz),
          (real sz, real (height im) - real sz)]
   \<and> corner_offsets im sz
       = [(real sz, real sz), (- real sz, real sz), (- real sz, - real sz),
          (real sz, - real sz)]"
  by (simp add: positions_def corner_offsets_def)

theorem positions_centre_and_corners_witness:
  "length (positions sample_image 60) = 5
   \<and> hd (positions sample_image 60) = (180, 135)
   \<and> tl (positions sample_image 60) = [(60, 60), (300, 60), (300, 210), (60, 210)]
   \<and> corner_offsets sample_image 60 = [(60, 60), (- 60, 60), (- 60, - 60), (60, - 60)]"
  using positions_centre_and_corners [of sample_image 60]
  by (simp add: sample_image_def)

subsection \<open>The scale factor and the shape of the view\<close>

lemma same_scale_refl: "same_scale s s"
  by (simp add: same_scale_def)

lemma same_scale_trans: "same_scale a b \<Longrightarrow> same_scale b c \<Longrightarrow> same_scale a c"
  by (simp add: same_scale_def)

lemma same_scale_emit: "same_scale s (emit x s)"
  by (simp add: same_scale_def emit_def)

lemma same_scale_put_text: "same_scale s (ended_in (put_text t y c s))"
  by (simp add: put_text_def same_scale_def emit_def split: option.splits)

lemma same_scale_train: "same_scale s (ended_in (train e s))"
  by (simp add: train_def put_text_def load_model_def same_scale_def emit_def Let_def
      split: option.splits)

lemma same_scale_draw_objects: "same_scale s (ended_in (draw_objects objs s))"
proof -
  from draw_objects_trace [of objs s] obtain xs where
    "ended_in (draw_objects objs s) = s\<lparr>trace := trace s @ xs\<rparr>" by blast
  then show ?thesis by (simp add: same_scale_def)
qed

lemma same_scale_detect_try: "same_scale s (ended_in (detect_try e s))"
proof (cases "localizer s")
  case None
  then show ?thesis by (simp add: detect_try_def same_scale_refl)
next
  case l: (Some l)
  show ?thesis
  proof (cases "camera_image s")
    case None
    with l show ?thesis by (simp add: detect_try_def same_scale_refl)
  next
    case (Some im)
    let ?s1 = "emit (Predict (make_input im)) s"
    have a: "same_scale s ?s1" by (rule same_scale_emit)
    show ?thesis
    proof (cases "prediction e")
      case None
      with l Some a show ?thesis by (simp add: detect_try_def)
    next
      case objs: (Some objs)
      note b = same_scale_trans [OF a same_scale_draw_objects [of ?s1 objs]]
      show ?thesis
      proof (cases "draw_objects objs ?s1")
        case (Inl x)
        with l Some objs b show ?thesis by (simp add: detect_try_def)
      next
        case (Inr s2)
        with b have "same_scale s s2" by simp
        from same_scale_trans [OF this same_scale_put_text] l Some objs Inr show ?thesis
          by (simp add: detect_try_def)
      qed
    qed
  qed
qed

lemma same_scale_detect: "same_scale s (ended_in (detect e s))"
proof -
  let ?s1 = "case detect_try e s of
               Inl (err, s') \<Rightarrow> (emit PrintExc s')\<lparr>localizer := None\<rparr>
             | Inr s' \<Rightarrow> s'"
  have "same_scale (ended_in (detect_try e s)) ?s1"
    by (cases "detect_try e s") (auto simp: same_scale_def emit_def)
  with same_scale_detect_try have "same_scale s ?s1" by (rule same_scale_trans)
  moreover have "same_scale ?s1 (ended_in (detect e s))"
    by (simp add: detect_def Let_def same_scale_refl same_scale_put_text)
  ultimately show ?thesis by (rule same_scale_trans)
qed

lemma same_scale_new_model: "same_scale s (ended_in (new_model e s))"
  by (simp add: new_model_def train_def put_text_def load_model_def same_scale_def emit_def
      draw_pose_def Let_def split: option.splits)

lemma same_scale_render: "same_scale s (ended_in (render e s))"
proof (cases "mode s = DETECT")
  case True
  show ?thesis
  proof (cases "put_text ''Press n to train new model, q to quit'' 50 green s")
    case (Inl x)
    with True same_scale_put_text [of s "''Press n to train new model, q to quit''" 50 green]
    show ?thesis by (simp add: render_def)
  next
    case (Inr s1)
    with same_scale_put_text [of s "''Press n to train new model, q to quit''" 50 green]
    have "same_scale s s1" by simp
    from same_scale_trans [OF this same_scale_detect [of s1 e]] True Inr
    show ?thesis
      by (cases "detect e s1") (auto simp: render_def same_scale_def emit_def)
  qed
next
  case False
  with same_scale_new_model [of s e] show ?thesis
    by (cases "new_model e s") (auto simp: render_def same_scale_def emit_def)
qed

lemma same_scale_acquire:
  "scale_factor s \<noteq> None \<Longrightarrow> same_scale s (ended_in (acquire shp px s))"
  by (auto simp: acquire_def set_scale_def same_scale_def Let_def
      split: option.splits sum.splits if_splits pyfloat.splits)

lemma same_scale_dispatch_key: "same_scale s (ended_in (dispatch_key e s))"
  using same_scale_train [of s e] by (simp add: dispatch_key_def same_scale_def)

lemma same_scale_process_frame:
  assumes "scale_factor s \<noteq> None"
  shows "same_scale s (session_of (process_frame e s))"
proof (cases "frame e")
  case None
  then show ?thesis by (simp add: process_frame_def same_scale_emit)
next
  case (Some shp)
  show ?thesis
  proof (cases "valid_frame shp")
    case False
    with Some show ?thesis by (simp add: process_frame_def same_scale_emit)
  next
    case True
    show ?thesis
    proof (cases "acquire shp (resized e) s")
      case (Inl x)
      with Some True same_scale_acquire [OF assms, of shp "resized e"] show ?thesis
        by (cases x) (simp add: process_frame_def)
    next
      case (Inr s1)
      with same_scale_acquire [OF assms, of shp "resized e"] have "same_scale s s1" by simp
      from same_scale_trans [OF this same_scale_render [of s1 e]] Some True Inr show ?thesis
        by (cases "render e s1") (auto simp: process_frame_def)
    qed
  qed
qed

lemma same_scale_iteration:
  assumes "scale_factor s \<noteq> None"
  shows "same_scale s (session_of (iteration s e))"
proof -
  let ?s0 = "s\<lparr>key := pressed e\<rparr>"
  have a: "same_scale s ?s0" by (simp add: same_scale_def)
  show ?thesis
  proof (cases "dispatch_key e ?s0")
    case (Inl x)
    with same_scale_trans [OF a same_scale_dispatch_key [of ?s0 e]] show ?thesis
      by (cases x) (auto simp: iteration_def Let_def same_scale_def)
  next
    case (Inr s1)
    with same_scale_trans [OF a same_scale_dispatch_key [of ?s0 e]] have b: "same_scale s s1"
      by simp
    with assms have "scale_factor s1 \<noteq> None" by (simp add: same_scale_def)
    from same_scale_trans [OF b same_scale_process_frame [OF this]] Inr show ?thesis
      by (auto simp: iteration_def Let_def same_scale_def)
  qed
qed

lemma same_scale_run:
  "scale_factor s \<noteq> None \<Longrightarrow> same_scale s (session_of (run s es))"
proof (induction es arbitrary: s)
  case Nil
  show ?case by (simp add: same_scale_refl)
next
  case (Cons e es)
  note step = same_scale_iteration [OF Cons.prems, of e]
  show ?case
  proof (cases "iteration s e")
    case (Next s1)
    with step have a: "same_scale s s1" by simp
    with Cons.prems have "scale_factor s1 \<noteq> None" by (simp add: same_scale_def)
    from same_scale_trans [OF a Cons.IH [OF this]] Next show ?thesis by simp
  next
    case (Break s1)
    with step show ?thesis by simp
  next
    case (Raise err s1)
    with step show ?thesis by simp
  qed
qed

lemma set_scale_first:
  assumes "scale_factor s = None" and "0 < max h w"
  shows "set_scale [h, w, c] s =
     Inr (s\<lparr>scale_factor := Some (Finite (fl (real (object_size s * 6) / real (max h w)))),
            view_shape :=
              Some (nat \<lfloor>fl (fl (fl (real (object_size s * 6) / real (max h w)) * real h)
                             + 100)\<rfloor>,
                    min (nat \<lfloor>fl (fl (real (object_size s * 6) / real (max h w)) * real w)\<rfloor>
                         + 1) 640,
                    3)\<rparr>)"
  using assms by (auto simp: set_scale_def Let_def)

lemma acquire_first:
  assumes "scale_factor s = None" and "0 < max h w" and "acquire [h, w, c] px s = Inr s'"
  shows "scale_factor s' = Some (Finite (fl (real (object_size s * 6) / real (max h w))))
       \<and> view_shape s' =
           Some (nat \<lfloor>fl (fl (fl (real (object_size s * 6) / real (max h w)) * real h)
                          + 100)\<rfloor>,
                 min (nat \<lfloor>fl (fl (real (object_size s * 6) / real (max h w)) * real w)\<rfloor>
                      + 1) 640,
                 3)"
  using assms(3) unfolding acquire_def set_scale_first [OF assms(1,2)]
  by (auto simp: Let_def split: sum.splits option.splits if_splits)

lemma iteration_Next_frame:
  assumes "iteration s e = Next s'" and "frame e = Some shp"
  shows "\<exists>s1 s2. dispatch_key e (s\<lparr>key := pressed e\<rparr>) = Inr s1
           \<and> acquire shp (resized e) s1 = Inr s2 \<and> render e s2 = Inr s'"
  using assms
  by (auto simp: iteration_def process_frame_def Let_def split: if_splits sum.splits prod.splits)

text \<open>
  C9. A new session has no scale factor. The iteration that processes the first valid
  frame, of \<open>h\<close> by \<open>w\<close> pixels, sets it to the quotient, a double, of the object size
  times 6 by the larger side, and the shape of the view with it, from the doubles the
  program computes (sizes below \<open>2 ^ 53\<close>, which are doubles themselves). With an object
  size of 60 and a frame of 480 by 640 the scale factor is 0.5625 and the view is 370 high
  and 361 wide. Once set, no run of the loop changes either.
\<close>

theorem scale_computed_once_and_frozen:
  "scale_factor (init sz lr) = None
   \<and> (scale_factor s = None \<longrightarrow> frame e = Some [h, w, 3] \<longrightarrow> 0 < max h w \<longrightarrow>
        max h w < 2 ^ 53 \<longrightarrow> object_size s * 6 < 2 ^ 53 \<longrightarrow> iteration s e = Next s' \<longrightarrow>
          scale_factor s' = Some (Finite (fl (real (object_size s * 6) / real (max h w))))
          \<and> view_shape s' =
              Some (nat \<lfloor>fl (fl (fl (real (object_size s * 6) / real (max h w)) * real h)
                             + 100)\<rfloor>,
                    min (nat \<lfloor>fl (fl (real (object_size s * 6) / real (max h w)) * real w)\<rfloor>
                         + 1) 640,
                    3))
   \<and> (scale_factor s = None \<longrightarrow> object_size s = 60 \<longrightarrow> frame e = Some [480, 640, 3] \<longrightarrow>
        iteration s e = Next s' \<longrightarrow>
          scale_factor s' = Some (Finite 0.5625) \<and> view_shape s' = Some (370, 361, 3))
   \<and> (scale_factor s = Some sf \<longrightarrow>
        scale_factor (session_of (run s es)) = Some sf
        \<and> view_shape (session_of (run s es)) = view_shape s)"
proof -
  have first: "scale_factor s' = Some (Finite (fl (real (object_size s * 6) / real (max h w))))
      \<and> view_shape s' =
          Some (nat \<lfloor>fl (fl (fl (real (object_size s * 6) / real (max h w)) * real h)
                         + 100)\<rfloor>,
                min (nat \<lfloor>fl (fl (real (object_size s * 6) / real (max h w)) * real w)\<rfloor>
                     + 1) 640,
                3)"
    if a: "scale_factor s = None" "frame e = Some [h, w, 3]" "0 < max h w"
      "iteration s e = Next s'" for h w
  proof -
    from iteration_Next_frame [OF a(4) a(2)] obtain s1 s2 where
      s: "dispatch_key e (s\<lparr>key := pressed e\<rparr>) = Inr s1"
         "acquire [h, w, 3] (resized e) s1 = Inr s2" "render e s2 = Inr s'"
      by blast
    from same_scale_dispatch_key [of "s\<lparr>key := pressed e\<rparr>" e] s(1) a(1)
    have s1: "scale_factor s1 = None" "object_size s1 = object_size s"
      by (simp_all add: same_scale_def)
    from acquire_first [OF s1(1) a(3) s(2)] s1(2) same_scale_render [of s2 e] s(3)
    show ?thesis by (simp add: same_scale_def)
  qed
  have init: "scale_factor (init sz lr) = None"
    by (simp add: init_def load_model_def emit_def Let_def)
  have scenario: "scale_factor s' = Some (Finite 0.5625) \<and> view_shape s' = Some (370, 361, 3)"
    if "scale_factor s = None" "object_size s = 60" "frame e = Some [480, 640, 3]"
      "iteration s e = Next s'"
    using first [of 480 640] that by (simp add: fl_values)
  have frozen: "scale_factor (session_of (run s es)) = Some sf
      \<and> view_shape (session_of (run s es)) = view_shape s" if "scale_factor s = Some sf"
    using same_scale_run [of s es] that by (simp add: same_scale_def)
  from init first scenario frozen show ?thesis by blast
qed

theorem scale_computed_once_and_frozen_witness:
  "scale_factor (init 60 False) = None
   \<and> iteration (init 60 False) (poll (- 1) (Some [480, 640, 3])) =
       Next (sample_session\<lparr>trace := [LoadLocalizer,
               PutText ''Press n to train new model, q to quit'' 320 green,
               Predict [], PutText ''Detecting. Show object to the camera.'' 290 green,
               ImShow]\<rparr>)
   \<and> scale_factor (session_of (run sample_session
         [poll ord_n (Some [240, 320, 3]), poll ord_space (Some [480, 640, 3])]))
       = Some (Finite 0.5625)
   \<and> view_shape (session_of (run sample_session
         [poll ord_n (Some [240, 320, 3]), poll ord_space (Some [480, 640, 3])]))
       = Some (370, 361, 3)"
  using scale_computed_once_and_frozen
    [where sz = 60 and lr = False and s = "init 60 False"
       and e = "poll (- 1) (Some [480, 640, 3])" and h = 480 and w = 640
       and s' = "sample_session\<lparr>trace := [LoadLocalizer,
               PutText ''Press n to train new model, q to quit'' 320 green,
               Predict [], PutText ''Detecting. Show object to the camera.'' 290 green,
               ImShow]\<rparr>"]
    scale_computed_once_and_frozen
    [where s = sample_session and sf = "Finite (9 / 16)"
       and es = "[poll ord_n (Some [240, 320, 3]), poll ord_space (Some [480, 640, 3])]"]
  by (simp add: init_def load_model_def emit_def Let_def poll_def sample_session_def
      sample_image_def iteration_def dispatch_key_def process_frame_def valid_frame_def
      acquire_def set_scale_def resize_def cv_round_def round_half_even_def fl_values
      fits_def render_def put_text_def
      detect_def detect_try_def make_input_def ord_q_def ord_n_def ord_r_def ord_space_def)

subsection \<open>Input normalization\<close>

lemma detect_try_feeds:
  assumes "camera_image s = Some im" and "localizer s = Some l"
  shows "\<exists>rest. trace (ended_in (detect_try e s)) = trace s @ Predict (make_input im) # rest"
proof (cases "prediction e")
  case None
  with assms show ?thesis by (simp add: detect_try_def emit_def)
next
  case (Some objs)
  let ?s1 = "emit (Predict (make_input im)) s"
  from draw_objects_trace [of objs ?s1] obtain xs where
    xs: "ended_in (draw_objects objs ?s1) = ?s1\<lparr>trace := trace ?s1 @ xs\<rparr>" by blast
  show ?thesis
  proof (cases "draw_objects objs ?s1")
    case (Inl x)
    with xs assms Some show ?thesis
      by (cases x) (simp add: detect_try_def emit_def)
  next
    case (Inr s2)
    with xs have "s2 = ?s1\<lparr>trace := trace ?s1 @ xs\<rparr>" by simp
    with assms Some Inr show ?thesis
      by (simp add: detect_try_def put_text_def emit_def)
  qed
qed

lemma detect_feeds:
  assumes "camera_image s = Some im" and "localizer s = Some l"
  shows "\<exists>rest. trace (ended_in (detect e s)) = trace s @ Predict (make_input im) # rest"
proof -
  from detect_try_feeds [OF assms, of e] obtain rest where
    r: "trace (ended_in (detect_try e s)) = trace s @ Predict (make_input im) # rest" by blast
  then show ?thesis
    by (cases "detect_try e s")
       (auto simp: detect_def put_text_def emit_def Let_def split: option.splits)
qed

lemma new_model_stores:
  assumes "camera_image s = Some im" and "key s = ord_space" and "image_idx s < 5"
  shows "\<exists>d rest. trace (ended_in (new_model e s)) =
           trace s @ d # ImWrite (image_path (image_idx s)) (map (\<lambda>v. v * 255) (make_input im)) # rest"
  using assms
  by (auto simp: new_model_def positions_def draw_pose_def emit_def Let_def train_def put_text_def
      load_model_def split: option.splits)

text \<open>
  C7. \<^verbatim>\<open>_make_input\<close> maps every pixel \<open>p\<close> to \<open>(p / 255)\<close> to the power one half.
  \<^verbatim>\<open>_detect\<close> gives \<^verbatim>\<open>predict\<close> this image of the camera image, and a capture in
  \<^verbatim>\<open>_new_model\<close> writes this same image times 255 to the image file of the cursor.
\<close>

theorem same_normalization:
  assumes "camera_image s = Some im"
  shows "make_input im = map (\<lambda>p. (real p / 255) powr (1 / 2)) (pixels im)
    \<and> (localizer s = Some l \<longrightarrow>
         (\<exists>rest. trace (ended_in (detect e s)) = trace s @ Predict (make_input im) # rest))
    \<and> (key s = ord_space \<longrightarrow> image_idx s < 5 \<longrightarrow>
         (\<exists>d rest. trace (ended_in (new_model e s)) =
            trace s @ d # ImWrite (image_path (image_idx s))
                            (map (\<lambda>v. v * 255) (make_input im)) # rest))"
  using detect_feeds [OF assms, of l e] new_model_stores [OF assms, of e]
  by (simp add: make_input_def)

theorem same_normalization_witness:
  "make_input \<lparr>height = 1, width = 1, pixels = [0, 255, 64]\<rparr> = [0, 1, (64 / 255) powr (1 / 2)]
   \<and> (\<exists>rest. trace (ended_in (detect (poll ord_space None)
          (sample_session\<lparr>camera_image := Some \<lparr>height = 1, width = 1, pixels = [0, 255, 64]\<rparr>,
                           key := ord_space\<rparr>)))
        = Predict [0, 1, (64 / 255) powr (1 / 2)] # rest)
   \<and> (\<exists>d rest. trace (ended_in (new_model (poll ord_space None)
          (sample_session\<lparr>camera_image := Some \<lparr>height = 1, width = 1, pixels = [0, 255, 64]\<rparr>,
                           key := ord_space\<rparr>)))
        = d # ImWrite ''.temp/hands_on_demo_model/image-0.png''
                [0, 255, (64 / 255) powr (1 / 2) * 255] # rest)"
  using same_normalization
    [of "sample_session\<lparr>camera_image := Some \<lparr>height = 1, width = 1, pixels = [0, 255, 64]\<rparr>,
                          key := ord_space\<rparr>"
        "\<lparr>height = 1, width = 1, pixels = [0, 255, 64]\<rparr>" Localizer "poll ord_space None"]
  by (simp add: sample_session_def make_input_def image_path_def image_file_def model_dir_def
      str_nat.simps)

subsection \<open>The calibration pose\<close>

lemma new_model_pose:
  assumes "camera_image s = Some im" and "image_idx s < 5"
  shows "let h = real (height im); w = real (width im); z = real (object_size s);
             i = image_idx s;
             p = [(w / 2, h / 2), (z, z), (w - z, z), (w - z, h - z), (z, h - z)] ! i;
             a = 2 * pi * real i / 5
         in (\<exists>rest. trace (ended_in (new_model e s)) = trace s @ DrawPose (fst p) (snd p) a # rest)
            \<and> (key s = ord_space \<longrightarrow> dataset s = Some ds \<longrightarrow>
                 dataset (ended_in (new_model e s)) =
                   Some (ds @ [DataElement (image_file i) [DataObject 0 (fst p) (snd p) a]]))"
  using assms
  by (auto simp: new_model_def positions_def pose_angle_def draw_pose_def emit_def Let_def
      train_def put_text_def load_model_def split: option.splits)

text \<open>
  C8, as the claim states it, fails: the pose is computed from the shape of the scaled
  camera image, not from the shape of the view. Two sessions with an object size of 60
  and a view of 370 by 361, both at cursor 0: in the first every frame has 480 by 640
  pixels, in the second a frame of 240 by 320 follows the first one. The first draws the
  pose at (180, 135), the second at (90, 67.5).
\<close>

theorem pose_counterexample:
  "view_shape (session_of (run (init 60 False) [poll ord_n (Some [480, 640, 3])]))
     = Some (370, 361, 3)
   \<and> view_shape (session_of (run (init 60 False)
        [poll (- 1) (Some [480, 640, 3]), poll ord_n (Some [240, 320, 3])]))
     = Some (370, 361, 3)
   \<and> object_size (session_of (run (init 60 False) [poll ord_n (Some [480, 640, 3])])) = 60
   \<and> object_size (session_of (run (init 60 False)
        [poll (- 1) (Some [480, 640, 3]), poll ord_n (Some [240, 320, 3])])) = 60
   \<and> image_idx (session_of (run (init 60 False) [poll ord_n (Some [480, 640, 3])])) = 0
   \<and> image_idx (session_of (run (init 60 False)
        [poll (- 1) (Some [480, 640, 3]), poll ord_n (Some [240, 320, 3])])) = 0
   \<and> drawn_poses (trace (session_of (run (init 60 False) [poll ord_n (Some [480, 640, 3])])))
     = [(180, 135, 0)]
   \<and> drawn_poses (trace (session_of (run (init 60 False)
        [poll (- 1) (Some [480, 640, 3]), poll ord_n (Some [240, 320, 3])])))
     = [(90, 135 / 2, 0)]"
  by (simp add: init_def load_model_def emit_def Let_def poll_def
      iteration_def dispatch_key_def process_frame_def valid_frame_def
      acquire_def set_scale_def resize_def cv_round_def round_half_even_def fl_values
      fits_def render_def put_text_def
      detect_def detect_try_def make_input_def ord_q_def ord_n_def ord_r_def ord_space_def
      new_model_def positions_def pose_angle_def draw_pose_def)

text \<open>
  C8, amended. For a cursor \<open>i\<close> below 5 the pose that \<^verbatim>\<open>_new_model\<close> draws, and labels a
  captured image with, is given by the height and width of the scaled camera image, the
  object size and \<open>i\<close> alone: the \<open>i\<close>-th of the five positions, and the angle
  \<open>2 * pi * i / 5\<close>.
\<close>

theorem calibration_pose_from_camera_image:
  assumes "camera_image s = Some im" and "image_idx s < 5"
  shows "let h = real (height im); w = real (width im); z = real (object_size s);
             i = image_idx s;
             p = [(w / 2, h / 2), (z, z), (w - z, z), (w - z, h - z), (z, h - z)] ! i;
             a = 2 * pi * real i / 5
         in (\<exists>rest. trace (ended_in (new_model e s)) = trace s @ DrawPose (fst p) (snd p) a # rest)
            \<and> (key s = ord_space \<longrightarrow> dataset s = Some ds \<longrightarrow>
                 dataset (ended_in (new_model e s)) =
                   Some (ds @ [DataElement (image_file i) [DataObject 0 (fst p) (snd p) a]]))"
  using new_model_pose [OF assms] .

theorem calibration_pose_from_camera_image_witness:
  "(\<exists>rest. trace (ended_in (new_model (poll ord_space None)
        (sample_session\<lparr>mode := NEW_MODEL, image_idx := 2, key := ord_space,
                         dataset := Some []\<rparr>)))
      = DrawPose 300 60 (4 * pi / 5) # rest)
   \<and> dataset (ended_in (new_model (poll ord_space None)
        (sample_session\<lparr>mode := NEW_MODEL, image_idx := 2, key := ord_space,
                         dataset := Some []\<rparr>)))
      = Some [DataElement ''image-2.png'' [DataObject 0 300 60 (4 * pi / 5)]]"
  using calibration_pose_from_camera_image
    [of "sample_session\<lparr>mode := NEW_MODEL, image_idx := 2, key := ord_space,
                         dataset := Some []\<rparr>" sample_image "poll ord_space None" "[]"]
  by (simp add: sample_session_def sample_image_def image_file_def str_nat.simps Let_def)

subsection \<open>The collection session and its dataset\<close>

lemma quiet_step_refl: "quiet_step s s"
  by (simp add: quiet_step_def)

lemma quiet_step_trans:
  assumes "quiet_step a b" and "quiet_step b c"
  shows "quiet_step a c"
proof -
  from assms(1) obtain xs where xs: "trace b = trace a @ xs" "written_images xs = []"
    "written_datasets xs = []" by (auto simp: quiet_step_def)
  from assms(2) obtain ys where ys: "trace c = trace b @ ys" "written_images ys = []"
    "written_datasets ys = []" by (auto simp: quiet_step_def)
  from xs ys have "trace c = trace a @ (xs @ ys) \<and> written_images (xs @ ys) = []
    \<and> written_datasets (xs @ ys) = []"
    by (simp add: written_images_append written_datasets_append)
  then have "\<exists>zs. trace c = trace a @ zs \<and> written_images zs = [] \<and> written_datasets zs = []"
    by blast
  with assms show ?thesis by (simp add: quiet_step_def)
qed

lemma quiet_step_collecting:
  assumes "collecting k s" and "quiet_step s s'"
  shows "collecting k s'"
proof -
  from assms(2) obtain xs where xs: "trace s' = trace s @ xs" "written_images xs = []"
    "written_datasets xs = []" by (auto simp: quiet_step_def)
  from assms(1) have k: "k \<le> length (trace s)" by (simp add: collecting_def)
  with xs have "drop k (trace s') = drop k (trace s) @ xs" by simp
  with assms xs k show ?thesis
    by (auto simp: collecting_def quiet_step_def written_images_append written_datasets_append)
qed

lemma completedI:
  assumes "k \<le> length (trace s)" and "image_idx s = 5"
    and "drop k (trace s) =
            A @ [WriteDataset dataset_path ds, PutText ''Training, please wait...'' y green,
                 ImShow, WaitKey, ConfigureLogging, TrainerRun] @ B"
    and "map image_field ds = map image_file [0..<5]"
    and "written_images A = map image_path [0..<5]" and "written_datasets A = []"
    and "written_images B = []" and "written_datasets B = []"
  shows "completed k s"
  unfolding completed_def using assms by blast

lemma quiet_step_completed:
  assumes "completed k s" and "quiet_step s s'"
  shows "completed k s'"
proof -
  from assms(2) obtain xs where xs: "trace s' = trace s @ xs" "written_images xs = []"
    "written_datasets xs = []" and idx: "image_idx s' = image_idx s"
    by (auto simp: quiet_step_def)
  from assms(1) obtain ds A B y where
    k: "k \<le> length (trace s)" "image_idx s = 5"
    and d: "drop k (trace s) =
            A @ [WriteDataset dataset_path ds, PutText ''Training, please wait...'' y green,
                 ImShow, WaitKey, ConfigureLogging, TrainerRun] @ B"
      "map image_field ds = map image_file [0..<5]"
      "written_images A = map image_path [0..<5]" "written_datasets A = []"
      "written_images B = []" "written_datasets B = []"
    by (auto simp: completed_def)
  from xs k d have "drop k (trace s') =
            A @ [WriteDataset dataset_path ds, PutText ''Training, please wait...'' y green,
                 ImShow, WaitKey, ConfigureLogging, TrainerRun] @ (B @ xs)"
    by simp
  moreover from d xs have "written_images (B @ xs) = []" "written_datasets (B @ xs) = []"
    by (simp_all add: written_images_append written_datasets_append)
  ultimately show ?thesis
    using k idx xs d(2,3,4) by (intro completedI [where A = A and B = "B @ xs"]) auto
qed

lemma quiet_step_put_text: "quiet_step s (ended_in (put_text t y c s))"
  by (cases "camera_image s") (simp_all add: put_text_def quiet_step_def emit_def)

lemma quiet_step_train: "quiet_step s (ended_in (train e s))"
proof (cases "camera_image s")
  case None
  then show ?thesis by (simp add: train_None quiet_step_refl)
next
  case (Some im)
  show ?thesis
    by (simp add: train_Some [OF Some] load_model_def quiet_step_def emit_def Let_def)
qed

lemma quiet_step_draw_objects: "quiet_step s (ended_in (draw_objects objs s))"
proof -
  from draw_objects_trace [of objs s] obtain xs where
    "ended_in (draw_objects objs s) = s\<lparr>trace := trace s @ xs\<rparr>"
    "written_images xs = []" "written_datasets xs = []" by blast
  then show ?thesis by (simp add: quiet_step_def)
qed

lemma quiet_step_detect_try: "quiet_step s (ended_in (detect_try e s))"
proof (cases "localizer s")
  case None
  then show ?thesis by (simp add: detect_try_def quiet_step_refl)
next
  case l: (Some l)
  show ?thesis
  proof (cases "camera_image s")
    case None
    with l show ?thesis by (simp add: detect_try_def quiet_step_refl)
  next
    case (Some im)
    let ?s1 = "emit (Predict (make_input im)) s"
    have a: "quiet_step s ?s1" by (simp add: quiet_step_def emit_def)
    show ?thesis
    proof (cases "prediction e")
      case None
      with l Some a show ?thesis by (simp add: detect_try_def)
    next
      case objs: (Some objs)
      note b = quiet_step_trans [OF a quiet_step_draw_objects [of ?s1 objs]]
      show ?thesis
      proof (cases "draw_objects objs ?s1")
        case (Inl x)
        with l Some objs b show ?thesis by (simp add: detect_try_def)
      next
        case (Inr s2)
        with b have "quiet_step s s2" by simp
        from quiet_step_trans [OF this quiet_step_put_text] l Some objs Inr show ?thesis
          by (simp add: detect_try_def)
      qed
    qed
  qed
qed

lemma quiet_step_detect: "quiet_step s (ended_in (detect e s))"
proof -
  let ?s1 = "case detect_try e s of
               Inl (err, s') \<Rightarrow> (emit PrintExc s')\<lparr>localizer := None\<rparr>
             | Inr s' \<Rightarrow> s'"
  have "quiet_step (ended_in (detect_try e s)) ?s1"
    by (cases "detect_try e s") (auto simp: quiet_step_def emit_def)
  with quiet_step_detect_try have "quiet_step s ?s1" by (rule quiet_step_trans)
  moreover have "quiet_step ?s1 (ended_in (detect e s))"
    by (simp add: detect_def Let_def quiet_step_refl quiet_step_put_text)
  ultimately show ?thesis by (rule quiet_step_trans)
qed

lemma acquire_fields:
  "mode (ended_in (acquire shp px s)) = mode s
   \<and> image_idx (ended_in (acquire shp px s)) = image_idx s
   \<and> dataset (ended_in (acquire shp px s)) = dataset s
   \<and> trace (ended_in (acquire shp px s)) = trace s
   \<and> key (ended_in (acquire shp px s)) = key s
   \<and> localizer (ended_in (acquire shp px s)) = localizer s"
  by (auto simp: acquire_def set_scale_def Let_def
      split: option.splits sum.splits if_splits pyfloat.splits)

lemma acquire_camera_image:
  "acquire shp px s = Inr s' \<Longrightarrow> \<exists>im. camera_image s' = Some im"
  by (auto simp: acquire_def set_scale_def Let_def
      split: option.splits sum.splits if_splits pyfloat.splits)

lemma quiet_step_acquire: "quiet_step s (ended_in (acquire shp px s))"
  using acquire_fields [of shp px s] by (simp add: quiet_step_def)

lemma quiet_step_dispatch_key:
  "key s \<noteq> ord_n \<Longrightarrow> quiet_step s (ended_in (dispatch_key e s))"
  by (simp add: dispatch_key_def quiet_step_train quiet_step_refl)

lemma length_positions: "length (positions im sz) = 5"
  by (simp add: positions_def)

lemma new_model_past_end:
  "image_idx s = 5 \<Longrightarrow> ended_in (new_model e s) = s"
  by (simp add: new_model_def length_positions split: option.splits)

lemma new_model_collecting:
  assumes "collecting k s" and "mode s = NEW_MODEL"
  shows "collecting k (ended_in (new_model e s)) \<or> completed k (ended_in (new_model e s))"
proof (cases "camera_image s")
  case None
  with assms show ?thesis by (simp add: new_model_def)
next
  case (Some im)
  from assms obtain ds where
    k: "k \<le> length (trace s)" and i: "image_idx s < 5"
    and ds: "dataset s = Some ds" "map image_field ds = map image_file [0..<image_idx s]"
    and w: "written_images (drop k (trace s)) = map image_path [0..<image_idx s]"
      "written_datasets (drop k (trace s)) = []"
    by (auto simp: collecting_def)
  let ?x = "fst (positions im (object_size s) ! image_idx s)"
  let ?y = "snd (positions im (object_size s) ! image_idx s)"
  let ?a = "pose_angle im (object_size s) (image_idx s)"
  show ?thesis
  proof (cases "key s = ord_space")
    case False
    with Some i have "new_model e s =
        Inr (s\<lparr>trace := trace s @ [DrawPose ?x ?y ?a,
              PutText (''Image #'' @ str_nat (image_idx s + 1) @ '' of '' @ str_nat 5)
                (height im + 20) green,
              PutText ''Place object to shown position and orientation'' (height im + 50) green,
              PutText ''and press space'' (height im + 80) green]\<rparr>)"
      by (simp add: new_model_def length_positions draw_pose_def emit_def put_text_def Let_def)
    then have "quiet_step s (ended_in (new_model e s))"
      by (simp add: quiet_step_def)
    from quiet_step_collecting [OF assms(1) this] show ?thesis ..
  next
    case True
    let ?d = "DataElement (image_file (image_idx s)) [DataObject 0 ?x ?y ?a]"
    let ?w = "ImWrite (image_path (image_idx s)) (map (\<lambda>v. v * 255) (make_input im))"
    show ?thesis
    proof (cases "image_idx s = 4")
      case False
      with True Some i ds have "new_model e s =
          Inr (s\<lparr>dataset := Some (ds @ [?d]), image_idx := image_idx s + 1,
                 trace := trace s @ [DrawPose ?x ?y ?a, ?w]\<rparr>)"
        by (simp add: new_model_def length_positions draw_pose_def emit_def Let_def)
      with False i k ds w assms(2) have "collecting k (ended_in (new_model e s))"
        by (simp add: collecting_def written_images_append written_datasets_append)
      then show ?thesis ..
    next
      case four: True
      let ?s3 = "s\<lparr>dataset := Some (ds @ [?d]), image_idx := 5,
                    trace := trace s @ [DrawPose ?x ?y ?a, ?w, WriteDataset dataset_path (ds @ [?d])]\<rparr>"
      from four True Some ds have nm: "new_model e s = train e ?s3"
        by (simp add: new_model_def length_positions draw_pose_def emit_def Let_def)
      have cam: "camera_image ?s3 = Some im" using Some by simp
      obtain B where B: "trace (ended_in (train e ?s3)) =
           trace s @ [DrawPose ?x ?y ?a, ?w] @
             [WriteDataset dataset_path (ds @ [?d]),
              PutText ''Training, please wait...'' (height im + 20) green,
              ImShow, WaitKey, ConfigureLogging, TrainerRun] @ B"
        "written_images B = []" "written_datasets B = []"
        by (cases "trainer_raises e"; cases "localizer_raises e")
           (auto simp: train_Some [OF cam])
      have idx: "image_idx (ended_in (train e ?s3)) = 5"
        using quiet_step_train [of ?s3 e] by (simp add: quiet_step_def)
      have "completed k (ended_in (train e ?s3))"
      proof (rule completedI [where A = "drop k (trace s) @ [DrawPose ?x ?y ?a, ?w]"
              and B = B and ds = "ds @ [?d]" and y = "height im + 20"])
        show "k \<le> length (trace (ended_in (train e ?s3)))" using k B(1) by simp
        show "image_idx (ended_in (train e ?s3)) = 5" by (rule idx)
        show "drop k (trace (ended_in (train e ?s3))) =
            (drop k (trace s) @ [DrawPose ?x ?y ?a, ?w]) @
            [WriteDataset dataset_path (ds @ [?d]),
             PutText ''Training, please wait...'' (height im + 20) green,
             ImShow, WaitKey, ConfigureLogging, TrainerRun] @ B"
          using k B(1) by simp
        show "map image_field (ds @ [?d]) = map image_file [0..<5]"
          using ds(2) four by (simp add: numeral_eq_Suc)
        show "written_images (drop k (trace s) @ [DrawPose ?x ?y ?a, ?w]) = map image_path [0..<5]"
          using w(1) four by (simp add: written_images_append numeral_eq_Suc)
        show "written_datasets (drop k (trace s) @ [DrawPose ?x ?y ?a, ?w]) = []"
          using w(2) by (simp add: written_datasets_append)
        show "written_images B = []" by (rule B(2))
        show "written_datasets B = []" by (rule B(3))
      qed
      with nm show ?thesis by simp
    qed
  qed
qed

lemma quiet_step_inv:
  assumes "collecting k s \<or> completed k s" and "quiet_step s s'"
  shows "collecting k s' \<or> completed k s'"
  using assms quiet_step_collecting quiet_step_completed by blast

lemma quiet_step_emit_ImShow: "quiet_step s (emit ImShow s)"
  by (simp add: quiet_step_def emit_def)

lemma quiet_step_emit_Print: "quiet_step s (emit (Print t) s)"
  by (simp add: quiet_step_def emit_def)

lemma render_inv:
  assumes "collecting k s \<or> completed k s"
  shows "collecting k (ended_in (render e s)) \<or> completed k (ended_in (render e s))"
proof (cases "mode s = DETECT")
  case True
  have "quiet_step s (ended_in (render e s))"
  proof (cases "put_text ''Press n to train new model, q to quit'' 50 green s")
    case (Inl x)
    with True quiet_step_put_text [of s "''Press n to train new model, q to quit''" 50 green]
    show ?thesis by (simp add: render_def)
  next
    case (Inr s1)
    with quiet_step_put_text [of s "''Press n to train new model, q to quit''" 50 green]
    have a: "quiet_step s s1" by simp
    show ?thesis
    proof (cases "detect e s1")
      case (Inl x)
      with quiet_step_trans [OF a quiet_step_detect [of s1 e]] True Inr show ?thesis
        by (simp add: render_def)
    next
      case r: (Inr s2)
      with quiet_step_trans [OF a quiet_step_detect [of s1 e]] have "quiet_step s s2" by simp
      from quiet_step_trans [OF this quiet_step_emit_ImShow] True Inr r show ?thesis
        by (simp add: render_def)
    qed
  qed
  with assms show ?thesis by (rule quiet_step_inv)
next
  case False
  then have nm: "mode s = NEW_MODEL" by (cases "mode s") simp_all
  have a: "collecting k (ended_in (new_model e s)) \<or> completed k (ended_in (new_model e s))"
  proof (cases "collecting k s")
    case True
    from new_model_collecting [OF this nm] show ?thesis .
  next
    case False
    with assms have c: "completed k s" by simp
    then have "image_idx s = 5" by (simp add: completed_def)
    with c show ?thesis by (simp add: new_model_past_end)
  qed
  show ?thesis
  proof (cases "new_model e s")
    case (Inl x)
    with a False show ?thesis by (simp add: render_def)
  next
    case (Inr s2)
    with a have "collecting k s2 \<or> completed k s2" by simp
    from quiet_step_inv [OF this quiet_step_emit_ImShow] False Inr show ?thesis
      by (simp add: render_def)
  qed
qed

lemma process_frame_inv:
  assumes "collecting k s \<or> completed k s"
  shows "collecting k (session_of (process_frame e s))
       \<or> completed k (session_of (process_frame e s))"
proof (cases "frame e")
  case None
  with quiet_step_inv [OF assms quiet_step_emit_Print] show ?thesis
    by (simp add: process_frame_def)
next
  case (Some shp)
  show ?thesis
  proof (cases "valid_frame shp")
    case False
    with Some quiet_step_inv [OF assms quiet_step_emit_Print] show ?thesis
      by (simp add: process_frame_def)
  next
    case True
    note a = quiet_step_inv [OF assms quiet_step_acquire [of s shp "resized e"]]
    show ?thesis
    proof (cases "acquire shp (resized e) s")
      case (Inl x)
      with Some True a show ?thesis by (cases x) (simp add: process_frame_def)
    next
      case (Inr s1)
      with a have "collecting k s1 \<or> completed k s1" by simp
      from render_inv [OF this, of e] Some True Inr show ?thesis
        by (cases "render e s1") (auto simp: process_frame_def)
    qed
  qed
qed

lemma iteration_inv:
  assumes "collecting k s \<or> completed k s" and "pressed e \<noteq> ord_n"
  shows "collecting k (session_of (iteration s e)) \<or> completed k (session_of (iteration s e))"
proof -
  let ?s0 = "s\<lparr>key := pressed e\<rparr>"
  have "quiet_step s ?s0" by (simp add: quiet_step_def)
  from quiet_step_inv [OF assms(1) this] have s0: "collecting k ?s0 \<or> completed k ?s0" .
  from assms(2) have "key ?s0 \<noteq> ord_n" by simp
  from quiet_step_inv [OF s0 quiet_step_dispatch_key [OF this, of e]]
  have d: "collecting k (ended_in (dispatch_key e ?s0))
         \<or> completed k (ended_in (dispatch_key e ?s0))" .
  show ?thesis
  proof (cases "pressed e = ord_q")
    case True
    with s0 show ?thesis by (simp add: iteration_def Let_def)
  next
    case False
    show ?thesis
    proof (cases "dispatch_key e ?s0")
      case (Inl x)
      with d False show ?thesis by (cases x) (simp add: iteration_def Let_def)
    next
      case (Inr s1)
      with d have "collecting k s1 \<or> completed k s1" by simp
      from process_frame_inv [OF this, of e] False Inr show ?thesis
        by (simp add: iteration_def Let_def)
    qed
  qed
qed

lemma run_inv:
  assumes "collecting k s \<or> completed k s" and "\<forall>e\<in>set es. pressed e \<noteq> ord_n"
  shows "collecting k (session_of (run s es)) \<or> completed k (session_of (run s es))"
  using assms
proof (induction es arbitrary: s)
  case Nil
  then show ?case by simp
next
  case (Cons e es)
  from Cons.prems have "pressed e \<noteq> ord_n" by simp
  note step = iteration_inv [OF Cons.prems(1) this]
  show ?case
  proof (cases "iteration s e")
    case (Next s1)
    with step have "collecting k s1 \<or> completed k s1" by simp
    from Cons.IH [OF this] Cons.prems(2) Next show ?thesis by simp
  next
    case (Break s1)
    with step show ?thesis by simp
  next
    case (Raise err s1)
    with step show ?thesis by simp
  qed
qed

lemma new_session_inv:
  assumes "pressed e = ord_n"
  shows "collecting (length (trace s)) (session_of (iteration s e))
       \<or> completed (length (trace s)) (session_of (iteration s e))"
proof -
  let ?s1 = "s\<lparr>key := ord_n, mode := NEW_MODEL, image_idx := 0, dataset := Some []\<rparr>"
  have "collecting (length (trace s)) ?s1" by (simp add: collecting_def)
  then have "collecting (length (trace s)) ?s1 \<or> completed (length (trace s)) ?s1" ..
  from process_frame_inv [OF this, of e] assms show ?thesis
    by (simp add: iteration_def dispatch_key_def Let_def ord_n_def ord_q_def)
qed

lemma session_inv:
  assumes "pressed e0 = ord_n" and "\<forall>e\<in>set es. pressed e \<noteq> ord_n"
  shows "collecting (length (trace s)) (session_of (run s (e0 # es)))
       \<or> completed (length (trace s)) (session_of (run s (e0 # es)))"
proof (cases "iteration s e0")
  case (Next s1)
  with new_session_inv [OF assms(1), of s]
  have "collecting (length (trace s)) s1 \<or> completed (length (trace s)) s1" by simp
  from run_inv [OF this assms(2)] Next show ?thesis by simp
next
  case (Break s1)
  with new_session_inv [OF assms(1), of s] show ?thesis by simp
next
  case (Raise err s1)
  with new_session_inv [OF assms(1), of s] show ?thesis by simp
qed

text \<open>
  C5. Take a run of the loop that starts with the new-session key and in which that key
  is not pressed again. As long as the cursor is below 5, no dataset file is written and
  the image files written are those of the indices below the cursor, in order. Once the
  cursor is 5, the dataset file has been written exactly once, the training began right
  after that write, the dataset has 5 entries, and their \<open>image\<close> fields are, in order,
  the names of the five image files written before it, one per index.
\<close>

theorem dataset_written_once:
  assumes "pressed e0 = ord_n" and "\<forall>e\<in>set es. pressed e \<noteq> ord_n"
  shows "let s' = session_of (run s (e0 # es)); T = drop (length (trace s)) (trace s') in
         (image_idx s' < 5 \<and> written_datasets T = []
            \<and> written_images T = map image_path [0..<image_idx s'])
         \<or> (image_idx s' = 5
            \<and> (\<exists>ds A B y.
                 T = A @ [WriteDataset dataset_path ds,
                          PutText ''Training, please wait...'' y green,
                          ImShow, WaitKey, ConfigureLogging, TrainerRun] @ B
                 \<and> written_datasets T = [ds]
                 \<and> length ds = 5
                 \<and> map image_field ds = map image_file [0..<5]
                 \<and> written_images A = map image_path [0..<5]
                 \<and> written_images T = map image_path [0..<5]
                 \<and> written_images T = map (\<lambda>d. model_dir @ ''/'' @ image_field d) ds))"
proof -
  let ?s' = "session_of (run s (e0 # es))"
  let ?T = "drop (length (trace s)) (trace ?s')"
  from session_inv [OF assms, of s] show ?thesis
  proof
    assume "collecting (length (trace s)) ?s'"
    then show ?thesis by (simp add: collecting_def Let_def)
  next
    assume "completed (length (trace s)) ?s'"
    then obtain ds A B y where
      i: "image_idx ?s' = 5"
      and d: "?T = A @ [WriteDataset dataset_path ds, PutText ''Training, please wait...'' y green,
                 ImShow, WaitKey, ConfigureLogging, TrainerRun] @ B"
        "map image_field ds = map image_file [0..<5]"
        "written_images A = map image_path [0..<5]" "written_datasets A = []"
        "written_images B = []" "written_datasets B = []"
      by (auto simp: completed_def)
    from d(2) have "length (map image_field ds) = length (map image_file [0..<5])" by simp
    then have len: "length ds = 5" by simp
    from d have wd: "written_datasets ?T = [ds]" and wi: "written_images ?T = map image_path [0..<5]"
      by (simp_all add: written_datasets_append written_images_append)
    have "map (\<lambda>d. model_dir @ ''/'' @ image_field d) ds
        = map (\<lambda>n. model_dir @ ''/'' @ n) (map image_field ds)"
      by simp
    also have "\<dots> = map image_path [0..<5]"
      unfolding d(2) by (simp add: image_path_def)
    finally have names: "written_images ?T = map (\<lambda>d. model_dir @ ''/'' @ image_field d) ds"
      using wi by simp
    from i d(1,2,3) len wd wi names show ?thesis
      unfolding Let_def by (intro disjI2 conjI exI [of _ ds] exI [of _ A] exI [of _ B] exI [of _ y])
  qed
qed

theorem dataset_written_once_witness:
  "map pressed (collect_events False) = [ord_n, ord_space, ord_space, ord_space, ord_space, ord_space]
   \<and> image_idx (session_of (run (init 60 False) (collect_events False))) = 5
   \<and> written_datasets (drop 1 (trace (session_of (run (init 60 False) (collect_events False)))))
       = [[DataElement ''image-0.png'' [DataObject 0 180 135 0],
           DataElement ''image-1.png'' [DataObject 0 60 60 (2 * pi / 5)],
           DataElement ''image-2.png'' [DataObject 0 300 60 (4 * pi / 5)],
           DataElement ''image-3.png'' [DataObject 0 300 210 (6 * pi / 5)],
           DataElement ''image-4.png'' [DataObject 0 60 210 (8 * pi / 5)]]]
   \<and> written_images (drop 1 (trace (session_of (run (init 60 False) (collect_events False)))))
       = [''.temp/hands_on_demo_model/image-0.png'', ''.temp/hands_on_demo_model/image-1.png'',
          ''.temp/hands_on_demo_model/image-2.png'', ''.temp/hands_on_demo_model/image-3.png'',
          ''.temp/hands_on_demo_model/image-4.png'']"
proof -
  have keys: "map pressed (collect_events False)
      = [ord_n, ord_space, ord_space, ord_space, ord_space, ord_space]"
    by (simp add: collect_events_def poll_def)
  have first: "pressed (poll ord_n (Some [480, 640, 3])) = ord_n"
    by (simp add: poll_def)
  have rest: "\<forall>e\<in>set (tl (collect_events False)). pressed e \<noteq> ord_n"
    by (simp add: collect_events_def poll_def ord_n_def ord_space_def)
  have whole: "poll ord_n (Some [480, 640, 3]) # tl (collect_events False) = collect_events False"
    by (simp add: collect_events_def)
  have start: "length (trace (init 60 False)) = 1"
    by (simp add: init_def load_model_def emit_def Let_def)
  from dataset_written_once [OF first rest, of "init 60 False"] keys show ?thesis
    unfolding whole start collect_events_run
    by (simp add: collected_def)
qed

subsection \<open>The end of a collection when the detector does not load\<close>

lemma new_model_IndexError:
  "camera_image s = Some im \<Longrightarrow> 5 \<le> image_idx s \<Longrightarrow> new_model e s = Inl (IndexError, s)"
  by (simp add: new_model_def length_positions)

lemma collected_next_frame:
  assumes "k \<noteq> ord_q" and "k \<noteq> ord_n" and "k \<noteq> ord_r"
  shows "iteration (collected True) (poll k (Some [480, 640, 3]))
           = Raise IndexError ((collected True)\<lparr>key := k\<rparr>)"
proof -
  have a: "acquire [480, 640, 3] [] ((collected True)\<lparr>key := k\<rparr>)
             = Inr ((collected True)\<lparr>key := k\<rparr>)"
    by (simp add: acquire_def set_scale_def resize_def cv_round_def round_half_even_def fl_values
      fits_def collected_def
        sample_image_def Let_def)
  have n: "new_model (poll k (Some [480, 640, 3])) ((collected True)\<lparr>key := k\<rparr>)
             = Inl (IndexError, (collected True)\<lparr>key := k\<rparr>)"
    by (rule new_model_IndexError [of _ sample_image]) (simp_all add: collected_def)
  have m: "mode ((collected True)\<lparr>key := k\<rparr>) = NEW_MODEL" by (simp add: collected_def)
  from assms a n m show ?thesis
    by (simp add: iteration_def dispatch_key_def process_frame_def valid_frame_def render_def
        poll_def Let_def)
qed

text \<open>
  C2, at the failing input. After the new-session key and five confirmations the dataset
  was written once, the trainer ran once and the load was attempted (a second time, after
  the one at start). When that load succeeds the mode is \<^verbatim>\<open>DETECT\<close>; when it fails the
  mode is still \<^verbatim>\<open>NEW_MODEL\<close>, with the cursor at 5 and no detector.
\<close>

theorem failed_reload_stays_in_collection:
  "(\<exists>s. run (init 60 False) (collect_events True) = Next s
        \<and> mode s = NEW_MODEL \<and> image_idx s = 5 \<and> localizer s = None
        \<and> length (written_datasets (trace s)) = 1
        \<and> length (filter (\<lambda>x. x = TrainerRun) (trace s)) = 1
        \<and> length (filter (\<lambda>x. x = LoadLocalizer) (trace s)) = 2)
   \<and> (\<exists>s. run (init 60 False) (collect_events False) = Next s
        \<and> mode s = DETECT \<and> image_idx s = 5 \<and> localizer s = Some Localizer
        \<and> length (written_datasets (trace s)) = 1
        \<and> length (filter (\<lambda>x. x = TrainerRun) (trace s)) = 1
        \<and> length (filter (\<lambda>x. x = LoadLocalizer) (trace s)) = 2)"
  by (simp add: collect_events_run collected_def)

text \<open>
  C1, at the failing input. In the session left in \<^verbatim>\<open>NEW_MODEL\<close> with the cursor at 5, the
  next frame, with a sixth confirmation or with no key at all, makes \<^verbatim>\<open>_new_model\<close> read
  \<^verbatim>\<open>positions[5]\<close>: the loop ends with an IndexError.
\<close>

theorem sixth_confirmation_raises:
  "run (init 60 False) (collect_events True @ [poll ord_space (Some [480, 640, 3])])
     = Raise IndexError (collected True)
   \<and> run (init 60 False) (collect_events True @ [poll (- 1) (Some [480, 640, 3])])
     = Raise IndexError ((collected True)\<lparr>key := - 1\<rparr>)
   \<and> mode (collected True) = NEW_MODEL \<and> image_idx (collected True) = 5
   \<and> map_option length (dataset (collected True)) = Some 5"
  using collected_next_frame [of ord_space] collected_next_frame [of "- 1"]
  by (simp add: run_snoc collect_events_run collected_def ord_q_def ord_n_def ord_r_def
      ord_space_def)

text \<open>
  C6, at the failing input. The detector that does not load in the reload that ends a
  collection is caught by \<^verbatim>\<open>_load_model\<close>: the traceback is printed, the detector is
  \<^verbatim>\<open>None\<close> and the iteration ends. But the mode is still \<^verbatim>\<open>NEW_MODEL\<close>: no frame of the
  run has put the caption ``No model loaded'' on the view, and the next frame ends the
  loop with the IndexError of \<^verbatim>\<open>_new_model\<close>. The same failure at start leaves the mode
  \<^verbatim>\<open>DETECT\<close>, and the first frame shows the caption.
\<close>

theorem failed_reload_no_indicator:
  "run (init 60 False) (collect_events True) = Next (collected True)
   \<and> localizer (collected True) = None
   \<and> mode (collected True) = NEW_MODEL
   \<and> drop (length (trace (collected True)) - 4) (trace (collected True))
       = [LoadLocalizer, PrintExc, Print ''Training done!'', ImShow]
   \<and> ''No model loaded'' \<notin> set (captions (trace (collected True)))
   \<and> run (init 60 False) (collect_events True @ [poll (- 1) (Some [480, 640, 3])])
       = Raise IndexError ((collected True)\<lparr>key := - 1\<rparr>)
   \<and> run (init 60 True) [poll (- 1) (Some [480, 640, 3])]
       = Next (sample_session\<lparr>localizer := None,
                 trace := [LoadLocalizer, PrintExc,
                           PutText ''Press n to train new model, q to quit'' 320 green,
                           PutText ''No model loaded'' 350 red, ImShow]\<rparr>)"
proof -
  have next_frame: "iteration (collected True) (poll (- 1) (Some [480, 640, 3]))
      = Raise IndexError ((collected True)\<lparr>key := - 1\<rparr>)"
    by (rule collected_next_frame) (simp_all add: ord_q_def ord_n_def ord_r_def)
  have start: "run (init 60 True) [poll (- 1) (Some [480, 640, 3])]
       = Next (sample_session\<lparr>localizer := None,
                 trace := [LoadLocalizer, PrintExc,
                           PutText ''Press n to train new model, q to quit'' 320 green,
                           PutText ''No model loaded'' 350 red, ImShow]\<rparr>)"
    by (simp add: init_def load_model_def emit_def Let_def poll_def sample_session_def
        sample_image_def iteration_def dispatch_key_def process_frame_def valid_frame_def
        acquire_def set_scale_def resize_def cv_round_def round_half_even_def fl_values
        fits_def render_def put_text_def detect_def detect_try_def
        ord_q_def ord_n_def ord_r_def)
  have here: "localizer (collected True) = None" "mode (collected True) = NEW_MODEL"
    "drop (length (trace (collected True)) - 4) (trace (collected True))
       = [LoadLocalizer, PrintExc, Print ''Training done!'', ImShow]"
    "''No model loaded'' \<notin> set (captions (trace (collected True)))"
    by (simp_all add: collected_def)
  from next_frame start here show ?thesis
    by (simp add: run_snoc collect_events_run)
qed

end
